theory Spec2Isabelle
  imports Main
begin

text \<open>
  A model of \<open>contacts_manager.py\<close>, a contact book kept in a JSON file: the two
  validations, loading and saving, and the handlers for add, search, update, delete,
  export and statistics. A handler takes the collection and the world (standard input,
  printed lines, the two files, the clock) and returns both, or the exception that ends
  it. Of the library the program calls, the \<open>json\<close> writer, \<open>csv\<close> and the arithmetic of
  \<open>datetime\<close> are modelled as they compute; the tables of the Unicode database and
  \<open>datetime.fromisoformat\<close> are parameters, so every statement holds whatever they are.
\<close>

section \<open>Strings\<close>

text \<open>
  A Python \<open>str\<close> is a sequence of code points, so it is a list of natural numbers and
  \<open>length\<close> counts what \<open>len\<close> counts. A code point is below \<open>0x110000\<close>. The literals
  of the program are written \<open>str ''...''\<close>.
\<close>

type_synonym pystr = "nat list"

definition str :: "string \<Rightarrow> pystr" where
  "str s = map of_char s"

definition code_points :: "pystr \<Rightarrow> bool" where
  \<comment> \<open>every element is a code point\<close>
  "code_points s = list_all (\<lambda>c. c < 0x110000) s"

fun startswith :: "'a list \<Rightarrow> 'a list \<Rightarrow> bool" where
  \<comment> \<open>\<open>s.startswith(p)\<close>, written \<open>startswith p s\<close>\<close>
  "startswith [] s = True"
| "startswith (p # ps) [] = False"
| "startswith (p # ps) (c # cs) = (p = c \<and> startswith ps cs)"

fun contains :: "'a list \<Rightarrow> 'a list \<Rightarrow> bool" where
  \<comment> \<open>\<open>sub in s\<close> on strings, written \<open>contains sub s\<close>: \<open>sub\<close> occurs at some position\<close>
  "contains sub [] = (sub = [])"
| "contains sub (c # cs) = (startswith sub (c # cs) \<or> contains sub cs)"

fun join :: "'a list \<Rightarrow> 'a list list \<Rightarrow> 'a list" where
  \<comment> \<open>\<open>sep.join(parts)\<close>\<close>
  "join sep [] = []"
| "join sep [x] = x"
| "join sep (x # y # ys) = x @ sep @ join sep (y # ys)"

section \<open>Timestamps\<close>

text \<open>
  A naive \<open>datetime\<close>, with the arithmetic of the \<open>datetime\<close> module on Python's unbounded
  integers. Months are 1 to 12.
\<close>

record datetime =
  year :: int
  month :: int
  day :: int
  hour :: int
  minute :: int
  second :: int
  microsecond :: int

definition is_leap :: "int \<Rightarrow> bool" where
  "is_leap y = (y mod 4 = 0 \<and> (y mod 100 \<noteq> 0 \<or> y mod 400 = 0))"

definition days_in_month :: "int \<Rightarrow> int \<Rightarrow> int" where
  "days_in_month y m =
     (if m = 2 \<and> is_leap y then 29
      else [31, 28, 31, 30, 31, 30, 31, 31, 30, 31, 30, 31] ! nat (m - 1))"

definition days_before_year :: "int \<Rightarrow> int" where
  "days_before_year y = (y - 1) * 365 + (y - 1) div 4 - (y - 1) div 100 + (y - 1) div 400"

definition days_before_month :: "int \<Rightarrow> int \<Rightarrow> int" where
  "days_before_month y m =
     [0, 31, 59, 90, 120, 151, 181, 212, 243, 273, 304, 334] ! nat (m - 1)
       + (if m > 2 \<and> is_leap y then 1 else 0)"

definition toordinal :: "datetime \<Rightarrow> int" where
  \<comment> \<open>day number of the date, 1 for 0001-01-01\<close>
  "toordinal d = days_before_year (year d) + days_before_month (year d) (month d) + day d"

definition timedelta_days :: "int \<Rightarrow> int \<Rightarrow> int \<Rightarrow> int" where
  \<comment> \<open>the \<open>days\<close> field of \<open>timedelta(days, seconds, microseconds)\<close> once normalised:
     microseconds carry into seconds and seconds into days, with floor division\<close>
  "timedelta_days d s us = d + (s + us div 1000000) div 86400"

definition sub_days :: "datetime \<Rightarrow> datetime \<Rightarrow> int" where
  \<comment> \<open>\<open>(a - b).days\<close> for two naive values\<close>
  "sub_days a b =
     timedelta_days (toordinal a - toordinal b)
       ((second a + minute a * 60 + hour a * 3600) - (second b + minute b * 60 + hour b * 3600))
       (microsecond a - microsecond b)"

fun zpad :: "nat \<Rightarrow> int \<Rightarrow> pystr" where
  \<comment> \<open>\<open>'%0wd' % n\<close> for \<open>0 \<le> n < 10 ^ w\<close>; 48 is the code point of the digit 0\<close>
  "zpad 0 n = []"
| "zpad (Suc w) n = zpad w (n div 10) @ [48 + nat (n mod 10)]"

definition isoformat :: "datetime \<Rightarrow> pystr" where
  \<comment> \<open>\<open>datetime.isoformat()\<close>: the fraction is written only when it is not zero\<close>
  "isoformat d =
     zpad 4 (year d) @ str ''-'' @ zpad 2 (month d) @ str ''-'' @ zpad 2 (day d) @ str ''T'' @
     zpad 2 (hour d) @ str '':'' @ zpad 2 (minute d) @ str '':'' @ zpad 2 (second d) @
     (if microsecond d \<noteq> 0 then str ''.'' @ zpad 6 (microsecond d) else [])"

datatype parsed =
    Not_iso \<comment> \<open>\<open>fromisoformat\<close> raises \<open>ValueError\<close>\<close>
  | Naive datetime \<comment> \<open>a value without time zone\<close>
  | Aware \<comment> \<open>a value with a time zone\<close>

section \<open>The library's tables\<close>

text \<open>
  What the program takes from the Unicode database through \<open>re\<close> and \<open>str\<close>, and the
  parser of \<open>datetime\<close>. They are not part of the repository and are left open:
  whatever in the model depends on them takes them as its first argument.
\<close>

record library =
  is_decimal :: "nat \<Rightarrow> bool" \<comment> \<open>the class \<open>\d\<close> of \<open>re\<close>: the decimal digits of Unicode\<close>
  is_space :: "nat \<Rightarrow> bool" \<comment> \<open>the whitespace that \<open>str.strip()\<close> removes\<close>
  to_lower_full :: "nat \<Rightarrow> pystr" \<comment> \<open>the lower case of one code point\<close>
  is_cased :: "nat \<Rightarrow> bool"
  is_case_ignorable :: "nat \<Rightarrow> bool"
  fromisoformat :: "pystr \<Rightarrow> parsed" \<comment> \<open>\<open>datetime.fromisoformat\<close>\<close>

definition strip :: "library \<Rightarrow> pystr \<Rightarrow> pystr" where
  \<comment> \<open>\<open>str.strip()\<close>: leading and trailing whitespace removed\<close>
  "strip L s = rev (dropWhile (is_space L) (rev (dropWhile (is_space L) s)))"

definition final_sigma :: "library \<Rightarrow> pystr \<Rightarrow> nat \<Rightarrow> bool" where
  \<comment> \<open>the capital sigma at position \<open>i\<close> ends a word: skipping case-ignorable code
     points, a cased one comes before it and none comes after it\<close>
  "final_sigma L s i =
     ((case dropWhile (is_case_ignorable L) (rev (take i s)) of
         [] \<Rightarrow> False | c # _ \<Rightarrow> is_cased L c) \<and>
      (case dropWhile (is_case_ignorable L) (drop (Suc i) s) of
         [] \<Rightarrow> True | c # _ \<Rightarrow> \<not> is_cased L c))"

definition lower_at :: "library \<Rightarrow> pystr \<Rightarrow> nat \<Rightarrow> pystr" where
  "lower_at L s i =
     (if s ! i = 0x3A3 then [if final_sigma L s i then 0x3C2 else 0x3C3]
      else to_lower_full L (s ! i))"

definition lower :: "library \<Rightarrow> pystr \<Rightarrow> pystr" where
  \<comment> \<open>\<open>str.lower()\<close>: each code point by the table, the capital sigma by its place\<close>
  "lower L s = concat (map (lower_at L s) [0..<length s])"

section \<open>Validations\<close>

fun re_sub_nondigit :: "library \<Rightarrow> pystr \<Rightarrow> pystr" where
  \<comment> \<open>\<open>re.sub(r'\D', '', s)\<close>: every character outside \<open>\d\<close> is replaced by nothing\<close>
  "re_sub_nondigit L [] = []"
| "re_sub_nondigit L (c # cs) =
     (if is_decimal L c then c # re_sub_nondigit L cs else re_sub_nondigit L cs)"

definition validate_phone :: "library \<Rightarrow> pystr \<Rightarrow> bool \<times> pystr option" where
  "validate_phone L phone =
     (let digits = re_sub_nondigit L phone
      in if 10 \<le> length digits \<and> length digits \<le> 15 then (True, Some digits)
         else (False, None))"

definition ascii_alpha :: "nat \<Rightarrow> bool" where
  \<comment> \<open>the class \<open>[a-zA-Z]\<close>\<close>
  "ascii_alpha c = (c \<in> set (str ''abcdefghijklmnopqrstuvwxyzABCDEFGHIJKLMNOPQRSTUVWXYZ''))"

definition ascii_digit :: "nat \<Rightarrow> bool" where
  \<comment> \<open>the class \<open>[0-9]\<close>\<close>
  "ascii_digit c = (c \<in> set (str ''0123456789''))"

definition local_char :: "nat \<Rightarrow> bool" where
  \<comment> \<open>the class \<open>[a-zA-Z0-9._%+-]\<close>\<close>
  "local_char c = (ascii_alpha c \<or> ascii_digit c \<or> c \<in> set (str ''._%+-''))"

definition domain_char :: "nat \<Rightarrow> bool" where
  \<comment> \<open>the class \<open>[a-zA-Z0-9.-]\<close>\<close>
  "domain_char c = (ascii_alpha c \<or> ascii_digit c \<or> c \<in> set (str ''.-''))"

definition validate_email :: "pystr \<Rightarrow> bool" where
  \<comment> \<open>\<open>re.match\<close> of \<open>^[a-zA-Z0-9._%+-]+@[a-zA-Z0-9.-]+\.[a-zA-Z]{2,}$\<close>. The local part is
     the longest run of its class and is followed by \<open>@\<close>; the letters after the last dot
     are the longest final run of letters; \<open>$\<close> also matches before one final line feed
     (code point 10).\<close>
  "validate_email email =
     (let body = (if email \<noteq> [] \<and> last email = 10 then butlast email else email);
          local = takeWhile local_char body;
          rest = dropWhile local_char body
      in local \<noteq> [] \<and>
         (case rest of
            [] \<Rightarrow> False
          | c # host \<Rightarrow>
              c = of_char (CHR ''@'') \<and>
              (let tld = takeWhile ascii_alpha (rev host);
                   pre = rev (dropWhile ascii_alpha (rev host))
               in 2 \<le> length tld \<and> pre \<noteq> [] \<and> last pre = of_char (CHR ''.'') \<and>
                  butlast pre \<noteq> [] \<and> list_all domain_char (butlast pre))))"

section \<open>Contacts\<close>

text \<open>
  A contact is the dictionary that \<open>add_contact\<close> builds, with its six keys as fields.
  The fields assigned from a value that may be \<open>None\<close> (the second component of
  \<open>validate_phone\<close>, a skipped email or address) are options.
\<close>

record contact =
  phone :: "pystr option"
  email :: "pystr option"
  address :: "pystr option"
  group :: pystr
  created_at :: pystr
  updated_at :: pystr

text \<open>
  A \<open>dict\<close> keeps its items in insertion order and has no key twice: it is a list of
  pairs whose keys are distinct. Assigning to a key that is present keeps its position,
  assigning to a new key appends, \<open>del\<close> removes the item.
\<close>

type_synonym ('k, 'v) dict = "('k \<times> 'v) list"

type_synonym contacts = "(pystr, contact) dict"

definition keys :: "('k, 'v) dict \<Rightarrow> 'k list" where
  "keys d = map fst d"

definition dict_values :: "('k, 'v) dict \<Rightarrow> 'v list" where
  "dict_values d = map snd d"

definition dict_get :: "('k, 'v) dict \<Rightarrow> 'k \<Rightarrow> 'v option" where
  "dict_get d k = map_of d k"

fun dict_set :: "'k \<Rightarrow> 'v \<Rightarrow> ('k, 'v) dict \<Rightarrow> ('k, 'v) dict" where
  "dict_set k v [] = [(k, v)]"
| "dict_set k v ((k', v') # d) = (if k' = k then (k', v) # d else (k', v') # dict_set k v d)"

fun dict_del :: "'k \<Rightarrow> ('k, 'v) dict \<Rightarrow> ('k, 'v) dict" where
  "dict_del k [] = []"
| "dict_del k ((k', v') # d) = (if k' = k then d else (k', v') # dict_del k d)"

section \<open>The storage format\<close>

text \<open>
  \<open>json.dump(contacts, f, indent=4)\<close> with the default \<open>ensure_ascii\<close>: a string is
  written between double quotes (code point \<open>0x22\<close>), with the double quote and the
  backslash (\<open>0x5C\<close>) escaped by a backslash, the short escapes for backspace, form
  feed, line feed, carriage return and tab, and every other code point outside the
  range from space to \<open>~\<close> as \<open>\uXXXX\<close>, those from \<open>0x10000\<close> on as a surrogate pair.
\<close>

definition hex_digit :: "nat \<Rightarrow> nat" where
  "hex_digit n = str ''0123456789abcdef'' ! n"

definition hex4 :: "nat \<Rightarrow> pystr" where
  \<comment> \<open>\<open>'{0:04x}'.format(n)\<close> for \<open>n < 0x10000\<close>\<close>
  "hex4 n = [hex_digit (n div 4096 mod 16), hex_digit (n div 256 mod 16),
             hex_digit (n div 16 mod 16), hex_digit (n mod 16)]"

definition u_escape :: "nat \<Rightarrow> pystr" where
  \<comment> \<open>a backslash, the letter u and four hexadecimal digits\<close>
  "u_escape n = 0x5C # 0x75 # hex4 n"

definition escape_char :: "nat \<Rightarrow> pystr" where
  "escape_char c =
     (if c = 0x22 then [0x5C, 0x22]
      else if c = 0x5C then [0x5C, 0x5C]
      else if c = 0x08 then 0x5C # str ''b''
      else if c = 0x0C then 0x5C # str ''f''
      else if c = 0x0A then 0x5C # str ''n''
      else if c = 0x0D then 0x5C # str ''r''
      else if c = 0x09 then 0x5C # str ''t''
      else if 0x20 \<le> c \<and> c \<le> 0x7E then [c]
      else if c < 0x10000 then u_escape c
      else u_escape (0xD800 + (c - 0x10000) div 1024 mod 1024) @
           u_escape (0xDC00 + (c - 0x10000) mod 1024))"

definition encode_string :: "pystr \<Rightarrow> pystr" where
  "encode_string s = [0x22] @ concat (map escape_char s) @ [0x22]"

definition encode_value :: "pystr option \<Rightarrow> pystr" where
  "encode_value v = (case v of None \<Rightarrow> str ''null'' | Some s \<Rightarrow> encode_string s)"

definition newline_indent :: "nat \<Rightarrow> pystr" where
  \<comment> \<open>a line feed and \<open>level\<close> times four spaces\<close>
  "newline_indent level = 0x0A # replicate (4 * level) 0x20"

definition encode_dict :: "nat \<Rightarrow> (pystr \<times> pystr) list \<Rightarrow> pystr" where
  \<comment> \<open>a dictionary at nesting depth \<open>level\<close>, from its keys and the text of its values:
     \<open>{}\<close> when empty, otherwise one item per line, indented one level deeper\<close>
  "encode_dict level items =
     (if items = [] then str ''{}''
      else str ''{'' @ newline_indent (Suc level) @
           join (str '','' @ newline_indent (Suc level))
             (map (\<lambda>(k, v). encode_string k @ str '': '' @ v) items) @
           newline_indent level @ str ''}'')"

definition contact_items :: "contact \<Rightarrow> (pystr \<times> pystr option) list" where
  \<comment> \<open>the items of a contact, in the order \<open>add_contact\<close> inserts them\<close>
  "contact_items c =
     [(str ''phone'', phone c), (str ''email'', email c), (str ''address'', address c),
      (str ''group'', Some (group c)), (str ''created_at'', Some (created_at c)),
      (str ''updated_at'', Some (updated_at c))]"

definition encode_contact :: "contact \<Rightarrow> pystr" where
  "encode_contact c = encode_dict 1 (map (\<lambda>(k, v). (k, encode_value v)) (contact_items c))"

definition json_dumps :: "contacts \<Rightarrow> pystr" where
  "json_dumps cs = encode_dict 0 (map (\<lambda>(name, c). (name, encode_contact c)) cs)"

text \<open>
  \<open>json.load\<close> on the texts that hold a collection: an object whose values are objects
  with the six keys of a contact, in any order, each value a string or \<open>null\<close>. The
  reader follows the decoder of the \<open>json\<close> module (\<open>scanstring\<close>, \<open>JSONObject\<close>,
  \<open>decode\<close>). Its result \<open>None\<close> makes no statement about \<open>json.load\<close>: it stands for
  malformed text and also for the values that the typed collection of this model has no
  place for (arrays, numbers, booleans, objects of another shape).
\<close>

definition is_ws :: "nat \<Rightarrow> bool" where
  \<comment> \<open>the whitespace of JSON: space, tab, line feed, carriage return\<close>
  "is_ws c = (c \<in> set [0x20, 0x09, 0x0A, 0x0D])"

definition skip_ws :: "pystr \<Rightarrow> pystr" where
  "skip_ws s = dropWhile is_ws s"

definition hex_val :: "nat \<Rightarrow> nat option" where
  \<comment> \<open>the value of a hexadecimal digit: 0 to 9, a to f, A to F\<close>
  "hex_val c =
     (if 48 \<le> c \<and> c \<le> 57 then Some (c - 48)
      else if 97 \<le> c \<and> c \<le> 102 then Some (c - 87)
      else if 65 \<le> c \<and> c \<le> 70 then Some (c - 55)
      else None)"

definition read_hex4 :: "pystr \<Rightarrow> (nat \<times> pystr) option" where
  \<comment> \<open>four hexadecimal digits: their value and the text after them\<close>
  "read_hex4 s =
     (case s of
        h1 # h2 # h3 # h4 # rest \<Rightarrow>
          (case (hex_val h1, hex_val h2, hex_val h3, hex_val h4) of
             (Some d1, Some d2, Some d3, Some d4) \<Rightarrow>
               Some (((d1 * 16 + d2) * 16 + d3) * 16 + d4, rest)
           | _ \<Rightarrow> None)
      | _ \<Rightarrow> None)"

definition high_surrogate :: "nat \<Rightarrow> bool" where
  "high_surrogate c = (0xD800 \<le> c \<and> c \<le> 0xDBFF)"

definition low_surrogate :: "nat \<Rightarrow> bool" where
  "low_surrogate c = (0xDC00 \<le> c \<and> c \<le> 0xDFFF)"

datatype pair = Bad_escape | No_pair | Pair nat pystr

definition low_escape :: "pystr \<Rightarrow> pair" where
  \<comment> \<open>what follows the escape of a high surrogate: the escape of a low surrogate (with
     the text after it), something else, or a \<open>\u\<close> without four hexadecimal digits\<close>
  "low_escape s =
     (case s of
        b # u # rest \<Rightarrow>
          if b = 0x5C \<and> u = 0x75 \<and> 4 \<le> length rest then
            (case read_hex4 rest of
               None \<Rightarrow> Bad_escape
             | Some (uni2, rest2) \<Rightarrow> if low_surrogate uni2 then Pair uni2 rest2 else No_pair)
          else No_pair
      | _ \<Rightarrow> No_pair)"

definition unescape :: "nat \<Rightarrow> nat option" where
  \<comment> \<open>the character after a backslash, other than \<open>u\<close>\<close>
  "unescape e =
     (if e = 0x22 \<or> e = 0x5C \<or> e = of_char (CHR ''/'') then Some e
      else if e = of_char (CHR ''b'') then Some 0x08
      else if e = of_char (CHR ''f'') then Some 0x0C
      else if e = of_char (CHR ''n'') then Some 0x0A
      else if e = of_char (CHR ''r'') then Some 0x0D
      else if e = of_char (CHR ''t'') then Some 0x09
      else None)"

definition cons_result :: "nat \<Rightarrow> (pystr \<times> pystr) option \<Rightarrow> (pystr \<times> pystr) option" where
  "cons_result c r = (case r of None \<Rightarrow> None | Some (s, rest) \<Rightarrow> Some (c # s, rest))"

function scanstring :: "pystr \<Rightarrow> (pystr \<times> pystr) option" where
  \<comment> \<open>the text after an opening double quote: the string it spells, and the text after
     the closing double quote. A raw control character is refused; the escapes of a high
     and a low surrogate in a row give one code point.\<close>
  "scanstring [] = None"
| "scanstring (c # cs) =
     (if c = 0x22 then Some ([], cs)
      else if c = 0x5C then
        (case cs of
           [] \<Rightarrow> None
         | e # es \<Rightarrow>
             if e = 0x75 then
               (case read_hex4 es of
                  None \<Rightarrow> None
                | Some (uni, rest) \<Rightarrow>
                    if high_surrogate uni then
                      (case low_escape rest of
                         Bad_escape \<Rightarrow> None
                       | No_pair \<Rightarrow> cons_result uni (scanstring rest)
                       | Pair uni2 rest2 \<Rightarrow>
                           cons_result (0x10000 + ((uni - 0xD800) * 1024 + (uni2 - 0xDC00)))
                             (scanstring rest2))
                    else cons_result uni (scanstring rest))
             else (case unescape e of
                     None \<Rightarrow> None
                   | Some x \<Rightarrow> cons_result x (scanstring es)))
      else if c < 0x20 then None
      else cons_result c (scanstring cs))"
  by pat_completeness auto
termination
  by (relation "measure length")
     (auto simp: read_hex4_def low_escape_def
           split: list.splits option.splits if_splits prod.splits)

declare scanstring.simps [simp del]

definition scan_scalar :: "pystr \<Rightarrow> (pystr option \<times> pystr) option" where
  \<comment> \<open>a value that is a string or \<open>null\<close>\<close>
  "scan_scalar s =
     (case s of
        [] \<Rightarrow> None
      | c # cs \<Rightarrow>
          if c = 0x22 then
            (case scanstring cs of None \<Rightarrow> None | Some (x, rest) \<Rightarrow> Some (Some x, rest))
          else if startswith (str ''null'') s then Some (None, drop 4 s)
          else None)"

function object_loop ::
  "(pystr \<Rightarrow> ('v \<times> pystr) option) \<Rightarrow> pystr \<Rightarrow> ((pystr \<times> 'v) list \<times> pystr) option" where
  \<comment> \<open>the loop of \<open>JSONObject\<close>, entered after the opening double quote of a key: the key,
     a colon, the value, then \<open>}\<close> or a comma and the next key. Each round leaves less
     text; the length test only says so and makes the recursion well-founded.\<close>
  "object_loop scan_value s =
     (case scanstring s of
        None \<Rightarrow> None
      | Some (key, s1) \<Rightarrow>
          (case skip_ws s1 of
             [] \<Rightarrow> None
           | c1 # s2 \<Rightarrow>
               if c1 \<noteq> of_char (CHR '':'') then None
               else
                 (case scan_value (skip_ws s2) of
                    None \<Rightarrow> None
                  | Some (v, s3) \<Rightarrow>
                      (case skip_ws s3 of
                         [] \<Rightarrow> None
                       | c2 # s4 \<Rightarrow>
                           if c2 = of_char (CHR ''}'') then Some ([(key, v)], s4)
                           else if c2 \<noteq> of_char (CHR '','') then None
                           else
                             (case skip_ws s4 of
                                [] \<Rightarrow> None
                              | c3 # s5 \<Rightarrow>
                                  if c3 \<noteq> 0x22 then None
                                  else if length s5 < length s then
                                    (case object_loop scan_value s5 of
                                       None \<Rightarrow> None
                                     | Some (pairs, rest) \<Rightarrow> Some ((key, v) # pairs, rest))
                                  else None)))))"
  by pat_completeness auto
termination
  by (relation "measure (\<lambda>(scan_value, s). length s)") auto

declare object_loop.simps [simp del]

fun dict_of_pairs :: "('k \<times> 'v) list \<Rightarrow> ('k, 'v) dict \<Rightarrow> ('k, 'v) dict" where
  \<comment> \<open>\<open>dict(pairs)\<close>: the pairs are assigned one after the other\<close>
  "dict_of_pairs [] d = d"
| "dict_of_pairs ((k, v) # pairs) d = dict_of_pairs pairs (dict_set k v d)"

definition scan_object ::
  "(pystr \<Rightarrow> ('v \<times> pystr) option) \<Rightarrow> pystr \<Rightarrow> ((pystr, 'v) dict \<times> pystr) option" where
  \<comment> \<open>a value that is an object: after \<open>{\<close> comes \<open>}\<close>, or the first key\<close>
  "scan_object scan_value s =
     (case s of
        [] \<Rightarrow> None
      | c # cs \<Rightarrow>
          if c \<noteq> of_char (CHR ''{'') then None
          else
            (case skip_ws cs of
               [] \<Rightarrow> None
             | c1 # s1 \<Rightarrow>
                 if c1 = of_char (CHR ''}'') then Some ([], s1)
                 else if c1 \<noteq> 0x22 then None
                 else (case object_loop scan_value s1 of
                         None \<Rightarrow> None
                       | Some (pairs, rest) \<Rightarrow> Some (dict_of_pairs pairs [], rest))))"

definition contact_of_items :: "(pystr, pystr option) dict \<Rightarrow> contact option" where
  \<comment> \<open>the dictionary as a contact, when its keys are the six keys, in whatever order,
     with strings where the record has strings\<close>
  "contact_of_items items =
     (if length items = 6 then
        (case (dict_get items (str ''phone''), dict_get items (str ''email''),
               dict_get items (str ''address''), dict_get items (str ''group''),
               dict_get items (str ''created_at''), dict_get items (str ''updated_at'')) of
           (Some p, Some e, Some a, Some (Some g), Some (Some c), Some (Some u)) \<Rightarrow>
             Some \<lparr>phone = p, email = e, address = a, group = g, created_at = c,
                   updated_at = u\<rparr>
         | _ \<Rightarrow> None)
      else None)"

definition scan_contact :: "pystr \<Rightarrow> (contact \<times> pystr) option" where
  "scan_contact s =
     (case scan_object scan_scalar s of
        None \<Rightarrow> None
      | Some (items, rest) \<Rightarrow>
          (case contact_of_items items of None \<Rightarrow> None | Some c \<Rightarrow> Some (c, rest)))"

definition json_loads :: "pystr \<Rightarrow> contacts option" where
  \<comment> \<open>\<open>decode\<close>: whitespace, the value, whitespace, and nothing more\<close>
  "json_loads s =
     (case scan_object scan_contact (skip_ws s) of
        None \<Rightarrow> None
      | Some (cs, rest) \<Rightarrow> if skip_ws rest = [] then Some cs else None)"

section \<open>Input, output, files and the clock\<close>

datatype error =
    EOFError \<comment> \<open>\<open>input\<close> at the end of the input\<close>
  | ValueError \<comment> \<open>\<open>fromisoformat\<close> on a string it does not read\<close>
  | TypeError \<comment> \<open>a naive \<open>datetime\<close> minus an aware one\<close>
  | Not_modelled \<comment> \<open>no exception: a storage file whose text \<open>json_loads\<close> does not
      read, from where the model does not follow the program\<close>

text \<open>The lines that the program prints, one constructor for each \<open>print\<close> call.\<close>

datatype message =
    No_existing_file \<comment> \<open>No existing contacts file found. Starting fresh.\<close>
  | Contacts_saved \<comment> \<open>Contacts saved to contacts_data.json\<close>
  | Add_header \<comment> \<open>--- ADD NEW CONTACT ---\<close>
  | Name_empty \<comment> \<open>Name cannot be empty!\<close>
  | Invalid_phone \<comment> \<open>Invalid phone number!\<close>
  | Invalid_email \<comment> \<open>Invalid email format!\<close>
  | Contact_added pystr \<comment> \<open>Contact 'name' added successfully!\<close>
  | No_contacts_found \<comment> \<open>No contacts found.\<close>
  | Found_count nat \<comment> \<open>Found n contact(s):\<close>
  | Rule nat \<comment> \<open>a line of n dashes\<close>
  | Result_name nat pystr \<comment> \<open>i. name\<close>
  | Result_phone "pystr option" \<comment> \<open>Phone: ...\<close>
  | Result_email pystr \<comment> \<open>Email: ...\<close>
  | Result_address pystr \<comment> \<open>Address: ...\<close>
  | Result_group pystr \<comment> \<open>Group: ...\<close>
  | Blank \<comment> \<open>an empty line\<close>
  | Contact_not_found \<comment> \<open>Contact not found!\<close>
  | Leave_blank \<comment> \<open>Leave blank to keep existing value.\<close>
  | Contact_updated \<comment> \<open>Contact updated successfully!\<close>
  | Contact_deleted \<comment> \<open>Contact deleted!\<close>
  | Contacts_exported \<comment> \<open>Contacts exported to contacts.csv\<close>
  | Statistics_header \<comment> \<open>--- CONTACT STATISTICS ---\<close>
  | Total_contacts nat \<comment> \<open>Total Contacts: n\<close>
  | By_group_header \<comment> \<open>Contacts by Group:\<close>
  | Group_count pystr nat \<comment> \<open>g: c contact(s)\<close>
  | Recently_updated nat \<comment> \<open>Recently Updated (last 7 days): n\<close>

text \<open>
  Everything outside the program: the lines still to be read from standard input, the
  lines printed so far (the prompts of \<open>input\<close> are not recorded), the text of
  \<open>contacts_data.json\<close> and of \<open>contacts.csv\<close> (\<open>None\<close> when the file does not exist),
  and the clock, which gives the \<open>k\<close>-th call of \<open>datetime.now()\<close> its own reading.
  Writing a file is taken to succeed.
\<close>

record world =
  stdin :: "pystr list"
  stdout :: "message list"
  storage :: "pystr option"
  csv_file :: "pystr option"
  clock :: "nat \<Rightarrow> datetime"
  ticks :: nat

definition input :: "world \<Rightarrow> error + (pystr \<times> world)" where
  \<comment> \<open>\<open>input(prompt)\<close>: the next line, or \<open>EOFError\<close> at the end of the input\<close>
  "input w = (case stdin w of [] \<Rightarrow> Inl EOFError | l # ls \<Rightarrow> Inr (l, w\<lparr>stdin := ls\<rparr>))"

definition print :: "message \<Rightarrow> world \<Rightarrow> world" where
  "print m w = w\<lparr>stdout := stdout w @ [m]\<rparr>"

definition now :: "world \<Rightarrow> datetime \<times> world" where
  "now w = (clock w (ticks w), w\<lparr>ticks := Suc (ticks w)\<rparr>)"

section \<open>File handling\<close>

definition load_contacts :: "world \<Rightarrow> error + (contacts \<times> world)" where
  "load_contacts w =
     (case storage w of
        None \<Rightarrow> Inr ([], print No_existing_file w)
      | Some content \<Rightarrow>
          (case json_loads content of
             None \<Rightarrow> Inl Not_modelled
           | Some cs \<Rightarrow> Inr (cs, w)))"

definition save_contacts :: "contacts \<Rightarrow> world \<Rightarrow> world" where
  "save_contacts cs w = print Contacts_saved (w\<lparr>storage := Some (json_dumps cs)\<rparr>)"

section \<open>Core functions\<close>

subsection \<open>Search\<close>

fun search_loop :: "library \<Rightarrow> pystr \<Rightarrow> contacts \<Rightarrow> contacts \<Rightarrow> contacts" where
  \<comment> \<open>the loop over \<open>contacts.items()\<close> that fills \<open>results\<close>\<close>
  "search_loop L term [] results = results"
| "search_loop L term ((name, info) # rest) results =
     search_loop L term rest
       (if contains term (lower L name) then dict_set name info results else results)"

definition print_if :: "(pystr \<Rightarrow> message) \<Rightarrow> pystr option \<Rightarrow> world \<Rightarrow> world" where
  \<comment> \<open>\<open>if v: print(...v...)\<close>\<close>
  "print_if f v w = (case v of None \<Rightarrow> w | Some s \<Rightarrow> if s \<noteq> [] then print (f s) w else w)"

fun print_results :: "nat \<Rightarrow> contacts \<Rightarrow> world \<Rightarrow> world" where
  \<comment> \<open>the loop over \<open>enumerate(results.items(), 1)\<close>\<close>
  "print_results i [] w = w"
| "print_results i ((name, info) # rest) w =
     print_results (Suc i) rest
       (print Blank
         (print (Result_group (group info))
           (print_if Result_address (address info)
             (print_if Result_email (email info)
               (print (Result_phone (phone info))
                 (print (Result_name i name) w))))))"

definition search_contact :: "library \<Rightarrow> contacts \<Rightarrow> world \<Rightarrow> error + (contacts \<times> world)" where
  "search_contact L cs w =
     (case input w of
        Inl e \<Rightarrow> Inl e
      | Inr (line, w1) \<Rightarrow>
          (let term = lower L line;
               results = search_loop L term cs []
           in if results = [] then Inr (cs, print No_contacts_found w1)
              else Inr (cs, print_results 1 results
                              (print (Rule 50) (print (Found_count (length results)) w1)))))"

subsection \<open>Update\<close>

definition update_contact :: "library \<Rightarrow> contacts \<Rightarrow> world \<Rightarrow> error + (contacts \<times> world)" where
  \<comment> \<open>\<open>info\<close> is \<open>contacts[name]\<close>, the dictionary that the assignments change in place\<close>
  "update_contact L cs w =
     (case input w of
        Inl e \<Rightarrow> Inl e
      | Inr (l0, w0) \<Rightarrow>
     (case dict_get cs (strip L l0) of
        None \<Rightarrow> Inr (cs, print Contact_not_found w0)
      | Some info \<Rightarrow>
     (case input (print Leave_blank w0) of
        Inl e \<Rightarrow> Inl e
      | Inr (l1, w1) \<Rightarrow>
     (let info1 = (if strip L l1 \<noteq> []
                   then (case validate_phone L (strip L l1) of
                           (valid, cleaned) \<Rightarrow> if valid then info\<lparr>phone := cleaned\<rparr> else info)
                   else info)
      in
     (case input w1 of
        Inl e \<Rightarrow> Inl e
      | Inr (l2, w2) \<Rightarrow>
     (let info2 = (if strip L l2 \<noteq> [] \<and> validate_email (strip L l2)
                   then info1\<lparr>email := Some (strip L l2)\<rparr> else info1)
      in
     (case input w2 of
        Inl e \<Rightarrow> Inl e
      | Inr (l3, w3) \<Rightarrow>
     (let info3 = (if strip L l3 \<noteq> [] then info2\<lparr>address := Some (strip L l3)\<rparr> else info2)
      in
     (case input w3 of
        Inl e \<Rightarrow> Inl e
      | Inr (l4, w4) \<Rightarrow>
     (let info4 = (if strip L l4 \<noteq> [] then info3\<lparr>group := strip L l4\<rparr> else info3);
          (t, w5) = now w4;
          info5 = info4\<lparr>updated_at := isoformat t\<rparr>;
          cs' = dict_set (strip L l0) info5 cs
      in Inr (cs', save_contacts cs' (print Contact_updated w5))))))))))))"

subsection \<open>Delete\<close>

definition delete_contact :: "library \<Rightarrow> contacts \<Rightarrow> world \<Rightarrow> error + (contacts \<times> world)" where
  "delete_contact L cs w =
     (case input w of
        Inl e \<Rightarrow> Inl e
      | Inr (l0, w0) \<Rightarrow>
          (let name = strip L l0
           in if name \<in> set (keys cs)
              then (let cs' = dict_del name cs
                    in Inr (cs', save_contacts cs' (print Contact_deleted w0)))
              else Inr (cs, print Contact_not_found w0)))"

subsection \<open>Add\<close>

text \<open>
  The three prompt loops end when a line is accepted, or with \<open>EOFError\<close> when the
  input runs out; each round reads one line.
\<close>

function prompt_name :: "library \<Rightarrow> world \<Rightarrow> error + (pystr \<times> world)" where
  "prompt_name L w =
     (case input w of
        Inl e \<Rightarrow> Inl e
      | Inr (line, w1) \<Rightarrow>
          if strip L line \<noteq> [] then Inr (strip L line, w1)
          else prompt_name L (print Name_empty w1))"
  by pat_completeness auto
termination
  by (relation "measure (\<lambda>(L, w). length (stdin w))")
     (auto simp: input_def print_def split: list.splits)

function prompt_phone :: "library \<Rightarrow> world \<Rightarrow> error + (pystr option \<times> world)" where
  "prompt_phone L w =
     (case input w of
        Inl e \<Rightarrow> Inl e
      | Inr (line, w1) \<Rightarrow>
          (case validate_phone L (strip L line) of
             (valid, cleaned) \<Rightarrow>
               if valid then Inr (cleaned, w1) else prompt_phone L (print Invalid_phone w1)))"
  by pat_completeness auto
termination
  by (relation "measure (\<lambda>(L, w). length (stdin w))")
     (auto simp: input_def print_def split: list.splits)

function prompt_email :: "library \<Rightarrow> world \<Rightarrow> error + (pystr \<times> world)" where
  "prompt_email L w =
     (case input w of
        Inl e \<Rightarrow> Inl e
      | Inr (line, w1) \<Rightarrow>
          if strip L line = [] \<or> validate_email (strip L line) then Inr (strip L line, w1)
          else prompt_email L (print Invalid_email w1))"
  by pat_completeness auto
termination
  by (relation "measure (\<lambda>(L, w). length (stdin w))")
     (auto simp: input_def print_def split: list.splits)

declare prompt_name.simps [simp del] prompt_phone.simps [simp del] prompt_email.simps [simp del]

definition add_contact :: "library \<Rightarrow> contacts \<Rightarrow> world \<Rightarrow> error + (contacts \<times> world)" where
  "add_contact L cs w =
     (case prompt_name L (print Add_header w) of
        Inl e \<Rightarrow> Inl e
      | Inr (name, w1) \<Rightarrow>
     (case prompt_phone L w1 of
        Inl e \<Rightarrow> Inl e
      | Inr (cleaned, w2) \<Rightarrow>
     (case prompt_email L w2 of
        Inl e \<Rightarrow> Inl e
      | Inr (mail, w3) \<Rightarrow>
     (case input w3 of
        Inl e \<Rightarrow> Inl e
      | Inr (l4, w4) \<Rightarrow>
     (case input w4 of
        Inl e \<Rightarrow> Inl e
      | Inr (l5, w5) \<Rightarrow>
     (let (t1, w6) = now w5;
          (t2, w7) = now w6;
          cs' = dict_set name
                  \<lparr>phone = cleaned,
                   email = (if mail \<noteq> [] then Some mail else None),
                   address = (if strip L l4 \<noteq> [] then Some (strip L l4) else None),
                   group = (if strip L l5 \<noteq> [] then strip L l5 else str ''Other''),
                   created_at = isoformat t1,
                   updated_at = isoformat t2\<rparr> cs
      in Inr (cs', save_contacts cs' (print (Contact_added name) w7))))))))"

subsection \<open>Export\<close>






subsection \<open>Statistics\<close>

fun count_groups :: "contact list \<Rightarrow> (pystr, nat) dict \<Rightarrow> (pystr, nat) dict" where
  "count_groups [] groups = groups"
| "count_groups (info # rest) groups =
     count_groups rest
       (dict_set (group info)
          ((case dict_get groups (group info) of None \<Rightarrow> 0 | Some n \<Rightarrow> n) + 1) groups)"

fun print_groups :: "(pystr, nat) dict \<Rightarrow> world \<Rightarrow> world" where
  "print_groups [] w = w"
| "print_groups ((g, c) # rest) w = print_groups rest (print (Group_count g c) w)"

fun count_recent :: "library \<Rightarrow> contact list \<Rightarrow> nat \<Rightarrow> world \<Rightarrow> error + (nat \<times> world)" where
  \<comment> \<open>the second loop over \<open>contacts.values()\<close>; each round parses \<open>updated_at\<close>, then
     reads the clock and subtracts\<close>
  "count_recent L [] recent w = Inr (recent, w)"
| "count_recent L (info # rest) recent w =
     (case fromisoformat L (updated_at info) of
        Not_iso \<Rightarrow> Inl ValueError
      | Aware \<Rightarrow> Inl TypeError
      | Naive updated \<Rightarrow>
          (case now w of
             (t, w1) \<Rightarrow>
               count_recent L rest (if sub_days t updated \<le> 7 then recent + 1 else recent) w1))"

definition view_statistics :: "library \<Rightarrow> contacts \<Rightarrow> world \<Rightarrow> error + (contacts \<times> world)" where
  "view_statistics L cs w =
     (let w1 = print (Total_contacts (length cs)) (print Statistics_header w);
          groups = count_groups (dict_values cs) [];
          w2 = print_groups groups (print By_group_header w1)
      in case count_recent L (dict_values cs) 0 w2 of
           Inl e \<Rightarrow> Inl e
         | Inr (recent, w3) \<Rightarrow> Inr (cs, print (Recently_updated recent) w3))"

section \<open>Notions used in the statements\<close>

definition matching :: "library \<Rightarrow> pystr \<Rightarrow> contacts \<Rightarrow> contacts" where
  \<comment> \<open>the contacts whose lower-cased name has the lower-cased query as a substring\<close>
  "matching L q cs =
     filter (\<lambda>(name, info). \<exists>pre suf. lower L name = pre @ lower L q @ suf) cs"

definition phone_ok :: "library \<Rightarrow> contact \<Rightarrow> bool" where
  \<comment> \<open>the phone is a string of 10 to 15 characters, all of them decimal digits\<close>
  "phone_ok L c =
     (case phone c of
        None \<Rightarrow> False
      | Some p \<Rightarrow> list_all (is_decimal L) p \<and> 10 \<le> length p \<and> length p \<le> 15)"

definition phones_ok :: "library \<Rightarrow> contacts \<Rightarrow> bool" where
  "phones_ok L cs = list_all (\<lambda>(name, c). phone_ok L c) cs"

definition validated :: "library \<Rightarrow> pystr option \<Rightarrow> bool" where
  \<comment> \<open>the value is the second component of a \<open>validate_phone\<close> that succeeded\<close>
  "validated L p = (\<exists>line. validate_phone L line = (True, p))"

definition to_microseconds :: "datetime \<Rightarrow> int" where
  \<comment> \<open>the instant as a count of microseconds\<close>
  "to_microseconds d =
     ((toordinal d * 86400 + hour d * 3600 + minute d * 60 + second d) * 1000000
        + microsecond d)"

definition readings :: "world \<Rightarrow> nat \<Rightarrow> datetime list" where
  \<comment> \<open>what the next \<open>n\<close> calls of \<open>datetime.now()\<close> return, in order\<close>
  "readings w n = map (clock w) [ticks w ..< ticks w + n]"

definition naive :: "library \<Rightarrow> contact \<Rightarrow> bool" where
  \<comment> \<open>\<open>fromisoformat\<close> reads \<open>updated_at\<close> as a value without time zone\<close>
  "naive L c = (case fromisoformat L (updated_at c) of Naive u \<Rightarrow> True | _ \<Rightarrow> False)"

definition recently :: "library \<Rightarrow> datetime \<Rightarrow> contact \<Rightarrow> bool" where
  \<comment> \<open>\<open>updated_at\<close> is later than eight times 24 hours before \<open>t\<close>\<close>
  "recently L t c =
     (case fromisoformat L (updated_at c) of
        Naive u \<Rightarrow> to_microseconds t - to_microseconds u < 8 * 86400 * 1000000
      | _ \<Rightarrow> False)"

definition calendar_day_difference :: "datetime \<Rightarrow> datetime \<Rightarrow> int" where
  \<comment> \<open>the number of days from the date of \<open>u\<close> to the date of \<open>t\<close>\<close>
  "calendar_day_difference t u = toordinal t - toordinal u"

definition within_7_calendar_days :: "library \<Rightarrow> datetime \<Rightarrow> contact \<Rightarrow> bool" where
  \<comment> \<open>the date of \<open>updated_at\<close> is at most seven days away from the date of \<open>t\<close>\<close>
  "within_7_calendar_days L t c =
     (case fromisoformat L (updated_at c) of
        Naive u \<Rightarrow> \<bar>calendar_day_difference t u\<bar> \<le> 7
      | _ \<Rightarrow> False)"

fun pair_free :: "pystr \<Rightarrow> bool" where
  \<comment> \<open>no high surrogate is followed at once by a low surrogate\<close>
  "pair_free [] = True"
| "pair_free [c] = True"
| "pair_free (a # b # s) = (\<not> (high_surrogate a \<and> low_surrogate b) \<and> pair_free (b # s))"

definition json_safe :: "pystr \<Rightarrow> bool" where
  "json_safe s = (code_points s \<and> pair_free s)"

definition json_safe_contact :: "contact \<Rightarrow> bool" where
  \<comment> \<open>every string of the contact is \<open>json_safe\<close>\<close>
  "json_safe_contact c =
     ((case phone c of None \<Rightarrow> True | Some s \<Rightarrow> json_safe s) \<and>
      (case email c of None \<Rightarrow> True | Some s \<Rightarrow> json_safe s) \<and>
      (case address c of None \<Rightarrow> True | Some s \<Rightarrow> json_safe s) \<and>
      json_safe (group c) \<and> json_safe (created_at c) \<and> json_safe (updated_at c))"

definition json_safe_contacts :: "contacts \<Rightarrow> bool" where
  "json_safe_contacts cs = list_all (\<lambda>(name, c). json_safe name \<and> json_safe_contact c) cs"

section \<open>Example data\<close>

text \<open>
  An excerpt of the library's tables for the examples: the decimal digits 0 to 9, the
  Arabic-Indic and the fullwidth ones; the whitespace of \<open>str.isspace\<close>; lower case
  for the letters below \<open>0x100\<close>; and \<open>fromisoformat\<close> on the two shapes that
  \<open>isoformat()\<close> writes, \<open>YYYY-MM-DDTHH:MM:SS\<close> and \<open>YYYY-MM-DDTHH:MM:SS.ffffff\<close>. It
  agrees with Python on the strings used below; no general statement depends on it.
\<close>

definition example_decimal :: "nat \<Rightarrow> bool" where
  "example_decimal c =
     (48 \<le> c \<and> c \<le> 57 \<or> 0x660 \<le> c \<and> c \<le> 0x669 \<or> 0xFF10 \<le> c \<and> c \<le> 0xFF19)"

definition example_space :: "nat \<Rightarrow> bool" where
  "example_space c =
     (9 \<le> c \<and> c \<le> 13 \<or> 28 \<le> c \<and> c \<le> 32 \<or> c = 0x85 \<or> c = 0xA0 \<or> c = 0x1680 \<or>
      0x2000 \<le> c \<and> c \<le> 0x200A \<or> c = 0x2028 \<or> c = 0x2029 \<or> c = 0x202F \<or> c = 0x205F \<or>
      c = 0x3000)"

definition example_lower :: "nat \<Rightarrow> pystr" where
  "example_lower c =
     (if 65 \<le> c \<and> c \<le> 90 \<or> 0xC0 \<le> c \<and> c \<le> 0xDE \<and> c \<noteq> 0xD7 then [c + 32] else [c])"

definition parse_int :: "pystr \<Rightarrow> int option" where
  \<comment> \<open>a non-empty run of the digits 0 to 9, read in base ten\<close>
  "parse_int s =
     (if s \<noteq> [] \<and> list_all ascii_digit s
      then Some (foldl (\<lambda>a c. 10 * a + (int c - 48)) 0 s) else None)"

definition valid_datetime :: "datetime \<Rightarrow> bool" where
  \<comment> \<open>the ranges the \<open>datetime\<close> constructor checks\<close>
  "valid_datetime d =
     (1 \<le> year d \<and> year d \<le> 9999 \<and> 1 \<le> month d \<and> month d \<le> 12 \<and>
      1 \<le> day d \<and> day d \<le> days_in_month (year d) (month d) \<and>
      0 \<le> hour d \<and> hour d \<le> 23 \<and> 0 \<le> minute d \<and> minute d \<le> 59 \<and>
      0 \<le> second d \<and> second d \<le> 59 \<and> 0 \<le> microsecond d \<and> microsecond d \<le> 999999)"

definition example_fromisoformat :: "pystr \<Rightarrow> parsed" where
  "example_fromisoformat s =
     (if (length s = 19 \<or> length s = 26 \<and> s ! 19 = of_char (CHR ''.'')) \<and>
         s ! 4 = of_char (CHR ''-'') \<and> s ! 7 = of_char (CHR ''-'') \<and>
         s ! 10 = of_char (CHR ''T'') \<and> s ! 13 = of_char (CHR '':'') \<and>
         s ! 16 = of_char (CHR '':'')
      then
        (case (parse_int (take 4 s), parse_int (take 2 (drop 5 s)), parse_int (take 2 (drop 8 s)),
               parse_int (take 2 (drop 11 s)), parse_int (take 2 (drop 14 s)),
               parse_int (take 2 (drop 17 s)),
               if length s = 19 then Some 0 else parse_int (drop 20 s)) of
           (Some y, Some mo, Some d, Some h, Some mi, Some sec, Some us) \<Rightarrow>
             (let dt = \<lparr>year = y, month = mo, day = d, hour = h, minute = mi, second = sec,
                        microsecond = us\<rparr>
              in if valid_datetime dt then Naive dt else Not_iso)
         | _ \<Rightarrow> Not_iso)
      else Not_iso)"

definition example_library :: library where
  "example_library =
     \<lparr>is_decimal = example_decimal, is_space = example_space, to_lower_full = example_lower,
      is_cased = ascii_alpha, is_case_ignorable = (\<lambda>c. c = 0x27),
      fromisoformat = example_fromisoformat\<rparr>"

definition alice :: contact where
  "alice = \<lparr>phone = Some (str ''5551234567''), email = Some (str ''alice@example.com''),
             address = None, group = str ''Work'', created_at = str ''2024-01-01T23:00:00'',
             updated_at = str ''2024-01-01T23:00:00''\<rparr>"

definition natalie :: contact where
  "natalie = \<lparr>phone = Some (str ''15550001111''), email = None,
               address = Some (str ''12 Elm Street''), group = str ''Family'',
               created_at = str ''2024-01-05T08:30:00'',
               updated_at = str ''2024-01-08T09:15:00.250000''\<rparr>"

definition bob :: contact where
  "bob = \<lparr>phone = Some (str ''4155550199''), email = None, address = None,
           group = str ''Work'', created_at = str ''2023-12-01T10:00:00'',
           updated_at = str ''2023-12-01T10:00:00''\<rparr>"

definition example_contacts :: contacts where
  "example_contacts = [(str ''Alice'', alice), (str ''Natalie'', natalie), (str ''Bob'', bob)]"

definition lukasz :: contact where
  \<comment> \<open>a phone in Arabic-Indic digits and an address with a code point above \<open>0xFFFF\<close>\<close>
  "lukasz = \<lparr>phone = Some [0x660, 0x661, 0x662, 0x663, 0x664, 0x665, 0x666, 0x667, 0x668, 0x669],
              email = None, address = Some (str ''Krak'' @ [0xF3] @ str ''w '' @ [0x1F600]),
              group = str ''Other'', created_at = str ''2024-01-09T01:00:00'',
              updated_at = str ''2024-01-09T01:00:00''\<rparr>"

definition example_now :: datetime where
  "example_now = \<lparr>year = 2024, month = 1, day = 9, hour = 1, minute = 0, second = 0,
                   microsecond = 0\<rparr>"

definition example_clock :: "nat \<Rightarrow> datetime" where
  "example_clock k = example_now"

definition example_world :: "pystr list \<Rightarrow> world" where
  \<comment> \<open>a fresh run with the given lines on standard input and no file on disk\<close>
  "example_world lines =
     \<lparr>stdin = lines, stdout = [], storage = None, csv_file = None, clock = example_clock,
      ticks = 0\<rparr>"

section \<open>Properties\<close>

subsection \<open>Dictionaries\<close>

lemma dict_get_None: "dict_get d k = None \<longleftrightarrow> k \<notin> set (keys d)"
  by (simp add: dict_get_def keys_def map_of_eq_None_iff)

lemma dict_set_fresh: "k \<notin> set (keys d) \<Longrightarrow> dict_set k v d = d @ [(k, v)]"
  by (induction d) (auto simp: keys_def)

lemma dict_set_map:
  "distinct (keys d) \<Longrightarrow> k \<in> set (keys d) \<Longrightarrow>
   dict_set k v d = map (\<lambda>(k', v'). if k' = k then (k', v) else (k', v')) d"
proof (induction d)
  case Nil
  then show ?case by (simp add: keys_def)
next
  case (Cons p d)
  obtain k' v' where p: "p = (k', v')" by (cases p)
  show ?case
  proof (cases "k' = k")
    case True
    with Cons.prems have "k \<notin> set (keys d)" by (simp add: p keys_def)
    then have "map (\<lambda>(k', v'). if k' = k then (k', v) else (k', v')) d = d"
      by (induction d) (auto simp: keys_def)
    then show ?thesis using True by (simp add: p)
  next
    case False
    with Cons.prems have "distinct (keys d)" "k \<in> set (keys d)" by (auto simp: p keys_def)
    then show ?thesis using Cons.IH False by (simp add: p)
  qed
qed

lemma dict_get_dict_set:
  "dict_get (dict_set k v d) k' = (if k' = k then Some v else dict_get d k')"
  by (induction d) (auto simp: dict_get_def)

lemma keys_dict_set:
  "keys (dict_set k v d) = (if k \<in> set (keys d) then keys d else keys d @ [k])"
  by (induction d) (force simp: keys_def)+

lemma distinct_dict_set: "distinct (keys d) \<Longrightarrow> distinct (keys (dict_set k v d))"
  by (simp add: keys_dict_set)

lemma dict_del_filter: "distinct (keys d) \<Longrightarrow> dict_del k d = filter (\<lambda>(k', v). k' \<noteq> k) d"
proof (induction d)
  case Nil
  then show ?case by simp
next
  case (Cons p d)
  obtain k' v' where p: "p = (k', v')" by (cases p)
  from Cons.prems have nk: "k' \<notin> set (keys d)" and dd: "distinct (keys d)"
    by (simp_all add: p keys_def)
  have "filter (\<lambda>(k'', v). k'' \<noteq> k') d = d"
    using nk by (induction d) (auto simp: keys_def)
  then show ?case using Cons.IH [OF dd] by (auto simp: p)
qed

lemma distinct_dict_del: "distinct (keys d) \<Longrightarrow> distinct (keys (dict_del k d))"
  by (simp add: dict_del_filter) (simp add: keys_def distinct_map_filter)

lemma dict_of_pairs_fresh:
  "distinct (keys (d @ its)) \<Longrightarrow> dict_of_pairs its d = d @ its"
proof (induction its arbitrary: d)
  case Nil
  then show ?case by simp
next
  case (Cons p its)
  obtain k v where p: "p = (k, v)" by (cases p)
  from Cons.prems have f: "k \<notin> set (keys d)" by (auto simp: p keys_def)
  from Cons.prems have "distinct (keys ((d @ [(k, v)]) @ its))" by (simp add: p keys_def)
  from Cons.IH [OF this] show ?case by (simp add: p dict_set_fresh [OF f])
qed

lemma distinct_dict_of_pairs: "distinct (keys d) \<Longrightarrow> distinct (keys (dict_of_pairs ps d))"
  by (induction ps d rule: dict_of_pairs.induct) (simp_all add: distinct_dict_set)

lemma distinct_example: "distinct (keys example_contacts)"
  by (simp add: example_contacts_def keys_def str_def)

subsection \<open>Printing\<close>

text \<open>
  Printing changes neither a file nor the clock.
\<close>

lemma storage_print [simp]: "storage (print m w) = storage w"
  and csv_file_print [simp]: "csv_file (print m w) = csv_file w"
  by (simp_all add: print_def)

lemma files_print_if [simp]: "storage (print_if f v w) = storage w"
  "csv_file (print_if f v w) = csv_file w"
  by (simp_all add: print_if_def split: option.splits)

lemma files_print_results [simp]:
  "storage (print_results i rs w) = storage w" "csv_file (print_results i rs w) = csv_file w"
  by (induction i rs w rule: print_results.induct) simp_all

lemma clock_print [simp]: "clock (print m w) = clock w"
  and ticks_print [simp]: "ticks (print m w) = ticks w"
  by (simp_all add: print_def)

lemma time_print_groups [simp]:
  "clock (print_groups gs w) = clock w" "ticks (print_groups gs w) = ticks w"
  by (induction gs w rule: print_groups.induct) simp_all

subsection \<open>Phone validation\<close>

lemma re_sub_nondigit_filter: "re_sub_nondigit L s = filter (is_decimal L) s"
  by (induction s) simp_all

text \<open>
  C1: for every string \<open>s\<close>, \<open>validate_phone\<close> succeeds exactly when the string left
  after deleting every character of \<open>s\<close> that is not a digit has between 10 and 15
  characters; on success the normalised value is that string, and on failure there is no
  normalised value. A digit is what the class \<open>\d\<close> of \<open>re\<close> matches, any decimal digit
  of Unicode; the statement holds for every string of code points and whatever that
  class is.
\<close>

theorem validate_phone_spec:
  "(fst (validate_phone L s) \<longleftrightarrow>
      10 \<le> length (filter (is_decimal L) s) \<and> length (filter (is_decimal L) s) \<le> 15)
   \<and> (fst (validate_phone L s) \<longrightarrow> snd (validate_phone L s) = Some (filter (is_decimal L) s))
   \<and> (\<not> fst (validate_phone L s) \<longrightarrow> snd (validate_phone L s) = None)"
  by (simp add: validate_phone_def re_sub_nondigit_filter Let_def)

theorem validate_phone_spec_witness:
  "fst (validate_phone example_library (str ''(555) 123-4567''))
   \<and> snd (validate_phone example_library (str ''(555) 123-4567'')) = Some (str ''5551234567'')
   \<and> \<not> fst (validate_phone example_library (str ''555-1234''))
   \<and> snd (validate_phone example_library (str ''555-1234'')) = None
   \<and> validate_phone example_library
        [0x660, 0x661, 0x662, 0x663, 0x664, 0x665, 0x666, 0x667, 0x668, 0x669]
       = (True, Some [0x660, 0x661, 0x662, 0x663, 0x664, 0x665, 0x666, 0x667, 0x668, 0x669])"
  using validate_phone_spec [of example_library "str ''(555) 123-4567''"]
    validate_phone_spec [of example_library "str ''555-1234''"]
    validate_phone_spec [of example_library
      "[0x660, 0x661, 0x662, 0x663, 0x664, 0x665, 0x666, 0x667, 0x668, 0x669]"]
  by (simp add: example_library_def example_decimal_def str_def prod_eq_iff)

lemma validate_phone_ok:
  "validate_phone L s = (True, cleaned) \<Longrightarrow>
   \<exists>p. cleaned = Some p \<and> list_all (is_decimal L) p \<and> 10 \<le> length p \<and> length p \<le> 15"
  by (auto simp: validate_phone_def Let_def re_sub_nondigit_filter list_all_iff split: if_splits)

subsection \<open>Saving and loading\<close>

text \<open>
  What \<open>json_dumps\<close> writes, \<open>json_loads\<close> reads back: first strings, then the items of
  an object, then the two levels of objects.
\<close>

lemma hex_val_hex_digit: "n < 16 \<Longrightarrow> hex_val (hex_digit n) = Some n"
proof -
  have "\<forall>n \<in> set [0..<16]. hex_val (hex_digit n) = Some n"
    by code_simp
  then show "n < 16 \<Longrightarrow> hex_val (hex_digit n) = Some n" by simp
qed

lemma hex4_value:
  fixes n :: nat
  assumes "n < 0x10000"
  shows "((n div 4096 mod 16 * 16 + n div 256 mod 16) * 16 + n div 16 mod 16) * 16 + n mod 16 = n"
proof -
  have a: "n div 4096 mod 16 = n div 4096" using assms by simp
  have h1: "n div 256 = n div 16 div 16" using div_mult2_eq [of n 16 16] by simp
  have h2: "n div 4096 = n div 256 div 16" using div_mult2_eq [of n 256 16] by simp
  have 1: "n = n div 16 * 16 + n mod 16" by simp
  have 2: "n div 16 = n div 256 * 16 + n div 16 mod 16"
    unfolding h1 by simp
  have 3: "n div 256 = n div 4096 * 16 + n div 256 mod 16"
    unfolding h2 by simp
  show ?thesis
    by (simp only: a 3 [symmetric] 2 [symmetric] 1 [symmetric])
qed

lemma read_hex4_hex4: "n < 0x10000 \<Longrightarrow> read_hex4 (hex4 n @ T) = Some (n, T)"
  using hex4_value [of n] by (simp add: read_hex4_def hex4_def hex_val_hex_digit)

lemma low_escape_u_escape:
  "n < 0x10000 \<Longrightarrow>
   low_escape (u_escape n @ T) = (if low_surrogate n then Pair n T else No_pair)"
  by (simp add: low_escape_def u_escape_def read_hex4_hex4) (simp add: hex4_def)

lemma low_escape_quote: "low_escape (0x22 # r) = No_pair"
  by (simp add: low_escape_def split: list.splits)

lemma low_escape_other: "b \<noteq> 0x5C \<Longrightarrow> low_escape (b # r) = No_pair"
  by (simp add: low_escape_def split: list.splits)

lemma low_escape_short: "e \<noteq> 0x75 \<Longrightarrow> low_escape (0x5C # e # r) = No_pair"
  by (simp add: low_escape_def)

lemma surrogates_of:
  assumes "0x10000 \<le> c" "c < 0x110000"
  shows "high_surrogate (0xD800 + (c - 0x10000) div 1024 mod 1024)"
    and "low_surrogate (0xDC00 + (c - 0x10000) mod 1024)"
    and "0xD800 + (c - 0x10000) div 1024 mod 1024 < 0x10000"
    and "0xDC00 + (c - 0x10000) mod 1024 < 0x10000"
    and "0x10000 + ((0xD800 + (c - 0x10000) div 1024 mod 1024 - 0xD800) * 1024
           + (0xDC00 + (c - 0x10000) mod 1024 - 0xDC00)) = c"
proof -
  have m: "(c - 0x10000) div 1024 mod 1024 < 1024" "(c - 0x10000) mod 1024 < 1024"
    by simp_all
  have d: "(c - 0x10000) div 1024 mod 1024 = (c - 0x10000) div 1024"
    using assms by simp
  show "high_surrogate (0xD800 + (c - 0x10000) div 1024 mod 1024)"
    using m by (simp add: high_surrogate_def)
  show "low_surrogate (0xDC00 + (c - 0x10000) mod 1024)"
    using m by (simp add: low_surrogate_def)
  show "0xD800 + (c - 0x10000) div 1024 mod 1024 < 0x10000"
    "0xDC00 + (c - 0x10000) mod 1024 < 0x10000"
    using m by simp_all
  have "(c - 0x10000) div 1024 * 1024 + (c - 0x10000) mod 1024 = c - 0x10000" by simp
  then show "0x10000 + ((0xD800 + (c - 0x10000) div 1024 mod 1024 - 0xD800) * 1024
           + (0xDC00 + (c - 0x10000) mod 1024 - 0xDC00)) = c"
    using assms(1) by (simp add: d)
qed

lemma low_escape_escape_char:
  assumes "c < 0x110000" and "\<not> low_surrogate c"
  shows "low_escape (escape_char c @ T) = No_pair"
proof (cases "c < 0x10000")
  case True
  then show ?thesis
    using assms(2)
    by (simp add: escape_char_def low_escape_u_escape low_escape_short low_escape_other str_def)
next
  case False
  then have c: "0x10000 \<le> c" by simp
  have n: "\<not> low_surrogate (0xD800 + (c - 0x10000) div 1024 mod 1024)"
    using surrogates_of(1) [OF c assms(1)] by (simp add: high_surrogate_def low_surrogate_def)
  show ?thesis
    using False c low_escape_u_escape [OF surrogates_of(3) [OF c assms(1)]] n
    by (simp add: escape_char_def)
qed

lemma scanstring_u_escape:
  assumes "n < 0x10000" and "high_surrogate n \<longrightarrow> low_escape T = No_pair"
  shows "scanstring (u_escape n @ T) = cons_result n (scanstring T)"
  using assms
  by (simp add: u_escape_def scanstring.simps read_hex4_hex4)

lemma scanstring_escape_char:
  assumes "c < 0x110000" and "high_surrogate c \<longrightarrow> low_escape T = No_pair"
  shows "scanstring (escape_char c @ T) = cons_result c (scanstring T)"
proof (cases "c < 0x10000")
  case True
  have esc: "scanstring (0x5C # e # T) = cons_result x (scanstring T)"
    if "unescape e = Some x" "e \<noteq> 0x75" for e x
    using that by (simp add: scanstring.simps)
  have u: "unescape 0x22 = Some 0x22" "unescape 0x5C = Some 0x5C"
    "unescape (of_char (CHR ''b'')) = Some 0x08" "unescape (of_char (CHR ''f'')) = Some 0x0C"
    "unescape (of_char (CHR ''n'')) = Some 0x0A" "unescape (of_char (CHR ''r'')) = Some 0x0D"
    "unescape (of_char (CHR ''t'')) = Some 0x09"
    by (simp_all add: unescape_def)
  have lit: "scanstring (c # T) = cons_result c (scanstring T)"
    if "c \<noteq> 0x22" "c \<noteq> 0x5C" "0x20 \<le> c"
    using that by (simp add: scanstring.simps)
  show ?thesis
    using True esc [OF u(1)] esc [OF u(2)] esc [OF u(3)] esc [OF u(4)] esc [OF u(5)]
      esc [OF u(6)] esc [OF u(7)] lit scanstring_u_escape [OF True assms(2)]
    by (simp add: escape_char_def str_def)
next
  case False
  then have c: "0x10000 \<le> c" by simp
  define s1 where "s1 = 0xD800 + (c - 0x10000) div 1024 mod 1024"
  define s2 where "s2 = 0xDC00 + (c - 0x10000) mod 1024"
  note s = surrogates_of [OF c assms(1), folded s1_def s2_def]
  have "scanstring (u_escape s1 @ u_escape s2 @ T) = cons_result c (scanstring T)"
    using s(1) s(2) s(5)
    by (simp add: u_escape_def [of s1] scanstring.simps read_hex4_hex4 [OF s(3)]
          low_escape_u_escape [OF s(4)])
  then show ?thesis using False by (simp add: escape_char_def s1_def s2_def)
qed

lemma scanstring_encode:
  "json_safe s \<Longrightarrow> scanstring (concat (map escape_char s) @ 0x22 # r) = Some (s, r)"
proof (induction s rule: pair_free.induct)
  case 1
  show ?case by (simp add: scanstring.simps)
next
  case (2 c)
  then have "c < 0x110000" by (simp add: json_safe_def code_points_def)
  from scanstring_escape_char [OF this, of "0x22 # r"] show ?case
    by (simp add: low_escape_quote scanstring.simps cons_result_def)
next
  case (3 a b s)
  then have a: "a < 0x110000" and b: "b < 0x110000"
    and nb: "high_surrogate a \<longrightarrow> \<not> low_surrogate b" and rest: "json_safe (b # s)"
    by (auto simp: json_safe_def code_points_def)
  have "high_surrogate a \<longrightarrow>
        low_escape (escape_char b @ concat (map escape_char s) @ 0x22 # r) = No_pair"
    using low_escape_escape_char [OF b] nb by blast
  from scanstring_escape_char [OF a this] "3.IH" [OF rest] show ?case
    by (simp add: cons_result_def)
qed

lemma skip_ws_simps [simp]:
  "skip_ws [] = []"
  "is_ws c \<Longrightarrow> skip_ws (c # s) = skip_ws s"
  "\<not> is_ws c \<Longrightarrow> skip_ws (c # s) = c # s"
  by (simp_all add: skip_ws_def)

lemma skip_ws_newline_indent [simp]: "skip_ws (newline_indent n @ s) = skip_ws s"
proof -
  have "skip_ws (replicate k 0x20 @ s) = skip_ws s" for k
    by (induction k) (simp_all add: is_ws_def)
  then show ?thesis by (simp add: newline_indent_def is_ws_def)
qed

lemma is_ws_chars [simp]:
  "\<not> is_ws 0x22" "\<not> is_ws 0x3A" "\<not> is_ws 0x2C" "\<not> is_ws 0x7D" "\<not> is_ws 0x7B"
  "\<not> is_ws 0x6E" "is_ws 0x20"
  by (simp_all add: is_ws_def)

lemma join_Cons: "ys \<noteq> [] \<Longrightarrow> join sep (x # ys) = x @ sep @ join sep ys"
  by (cases ys) simp_all

lemma scan_scalar_encode:
  "(case v of None \<Rightarrow> True | Some s \<Rightarrow> json_safe s) \<Longrightarrow>
   scan_scalar (encode_value v @ r) = Some (v, r)"
  by (cases v)
     (simp_all add: scan_scalar_def encode_value_def encode_string_def scanstring_encode str_def)

lemma encode_value_head: "encode_value v \<noteq> [] \<and> \<not> is_ws (hd (encode_value v))"
  by (cases v) (simp_all add: encode_value_def encode_string_def str_def)

lemma object_loop_last:
  assumes "json_safe k"
    and "scan_value (c # t @ newline_indent m @ 0x7D # rest)
             = Some (v, newline_indent m @ 0x7D # rest)"
    and "\<not> is_ws c"
  shows "object_loop scan_value
           (concat (map escape_char k) @ 0x22 # 0x3A # 0x20 # c # t @
              newline_indent m @ 0x7D # rest)
         = Some ([(k, v)], rest)"
  using assms
  by (subst object_loop.simps) (simp add: scanstring_encode)

lemma object_loop_more:
  assumes "json_safe k"
    and "scan_value (c # t @ 0x2C # newline_indent n @ 0x22 # S)
             = Some (v, 0x2C # newline_indent n @ 0x22 # S)"
    and "\<not> is_ws c"
    and "object_loop scan_value S = Some (ps, rest)"
  shows "object_loop scan_value
           (concat (map escape_char k) @ 0x22 # 0x3A # 0x20 # c # t @
              0x2C # newline_indent n @ 0x22 # S)
         = Some ((k, v) # ps, rest)"
  using assms
  by (subst object_loop.simps) (simp add: scanstring_encode)

lemma object_loop_join:
  fixes enc :: "'v \<Rightarrow> pystr"
  assumes sv: "\<And>k v r. (k, v) \<in> set its \<Longrightarrow> scan_value (enc v @ r) = Some (v, r)"
    and hd: "\<And>v. enc v \<noteq> [] \<and> \<not> is_ws (hd (enc v))"
    and safe: "\<And>k v. (k, v) \<in> set its \<Longrightarrow> json_safe k"
    and ne: "its \<noteq> []"
  shows "\<exists>J. join (0x2C # newline_indent n)
                (map (\<lambda>(k, v). encode_string k @ [0x3A, 0x20] @ enc v) its) = 0x22 # J
             \<and> object_loop scan_value (J @ newline_indent m @ 0x7D # rest)
                 = Some (its, rest)"
  using ne sv safe
proof (induction its rule: list_nonempty_induct)
  case (single p)
  obtain k v where p: "p = (k, v)" by (cases p)
  obtain c t where e: "enc v = c # t" "\<not> is_ws c"
    using hd [of v] by (cases "enc v") auto
  have k: "json_safe k" using single.prems(2) [of k v] by (simp add: p)
  have "scan_value (c # t @ r) = Some (v, r)" for r
    using single.prems(1) [of k v r] by (simp add: e p)
  from object_loop_last [of k scan_value, OF k this e(2)] show ?case
    by (simp add: p encode_string_def e)
next
  case (cons p its)
  obtain k v where p: "p = (k, v)" by (cases p)
  obtain c t where e: "enc v = c # t" "\<not> is_ws c"
    using hd [of v] by (cases "enc v") auto
  have k: "json_safe k" using cons.prems(2) [of k v] by (simp add: p)
  have sv': "scan_value (c # t @ r) = Some (v, r)" for r
    using cons.prems(1) [of k v r] by (simp add: e p)
  define items where "items = map (\<lambda>(k, v). encode_string k @ [0x3A, 0x20] @ enc v) its"
  have m: "items \<noteq> []"
    using cons.hyps by (simp add: items_def)
  from cons.IH cons.prems
  obtain J where J: "join (0x2C # newline_indent n) items = 0x22 # J"
    and l: "object_loop scan_value (J @ newline_indent m @ 0x7D # rest) = Some (its, rest)"
    unfolding items_def by (metis list.set_intros(2))
  have "join (0x2C # newline_indent n)
          (map (\<lambda>(k, v). encode_string k @ [0x3A, 0x20] @ enc v) (p # its))
        = 0x22 # (concat (map escape_char k) @ 0x22 # 0x3A # 0x20 # c # t @
              0x2C # newline_indent n @ 0x22 # J)"
  proof -
    have "map (\<lambda>(k, v). encode_string k @ [0x3A, 0x20] @ enc v) (p # its)
          = (encode_string k @ [0x3A, 0x20] @ enc v) # items"
      by (simp add: p items_def)
    then have "join (0x2C # newline_indent n)
                 (map (\<lambda>(k, v). encode_string k @ [0x3A, 0x20] @ enc v) (p # its))
          = (encode_string k @ [0x3A, 0x20] @ enc v) @ (0x2C # newline_indent n) @ (0x22 # J)"
      by (simp only: join_Cons [OF m] J)
    then show ?thesis by (simp add: encode_string_def e)
  qed
  moreover have "object_loop scan_value
           ((concat (map escape_char k) @ 0x22 # 0x3A # 0x20 # c # t @
              0x2C # newline_indent n @ 0x22 # J) @ newline_indent m @ 0x7D # rest)
         = Some (p # its, rest)"
    using object_loop_more [of k scan_value c t n "J @ newline_indent m @ 0x7D # rest" v
            its rest, OF k sv' e(2) l]
    by (simp add: p)
  ultimately show ?case by blast
qed

lemma scan_object_encode:
  fixes enc :: "'v \<Rightarrow> pystr"
  assumes sv: "\<And>k v r. (k, v) \<in> set its \<Longrightarrow> scan_value (enc v @ r) = Some (v, r)"
    and hd: "\<And>v. enc v \<noteq> [] \<and> \<not> is_ws (hd (enc v))"
    and safe: "\<And>k v. (k, v) \<in> set its \<Longrightarrow> json_safe k"
    and d: "distinct (keys its)"
  shows "scan_object scan_value (encode_dict m (map (\<lambda>(k, v). (k, enc v)) its) @ rest)
         = Some (its, rest)"
proof (cases "its = []")
  case True
  then show ?thesis by (simp add: scan_object_def encode_dict_def str_def)
next
  case False
  have "\<exists>J. join (0x2C # newline_indent (Suc m))
                (map (\<lambda>(k, v). encode_string k @ [0x3A, 0x20] @ enc v) its) = 0x22 # J
             \<and> object_loop scan_value (J @ newline_indent m @ 0x7D # rest)
                 = Some (its, rest)"
  proof (rule object_loop_join)
    show "\<And>k v r. (k, v) \<in> set its \<Longrightarrow> scan_value (enc v @ r) = Some (v, r)"
      by (rule sv)
    show "\<And>v. enc v \<noteq> [] \<and> \<not> is_ws (hd (enc v))" by (rule hd)
    show "\<And>k v. (k, v) \<in> set its \<Longrightarrow> json_safe k" by (rule safe)
    show "its \<noteq> []" by (rule False)
  qed
  then obtain J where J: "join (0x2C # newline_indent (Suc m))
                (map (\<lambda>(k, v). encode_string k @ [0x3A, 0x20] @ enc v) its) = 0x22 # J"
    and l: "object_loop scan_value (J @ newline_indent m @ 0x7D # rest) = Some (its, rest)"
    by blast
  have c: "map (\<lambda>(k, v). encode_string k @ str '': '' @ v) (map (\<lambda>(k, v). (k, enc v)) its)
         = map (\<lambda>(k, v). encode_string k @ [0x3A, 0x20] @ enc v) its"
    by (induction its) (auto simp: str_def)
  have dp: "dict_of_pairs its [] = its"
    using dict_of_pairs_fresh [of "[]" its] d by simp
  have "encode_dict m (map (\<lambda>(k, v). (k, enc v)) its) @ rest
        = 0x7B # newline_indent (Suc m) @ 0x22 # J @ newline_indent m @ 0x7D # rest"
    using False J unfolding encode_dict_def c by (simp add: str_def)
  then show ?thesis
    by (simp add: scan_object_def l dp)
qed

lemma json_safe_keys:
  "json_safe (str ''phone'')" "json_safe (str ''email'')" "json_safe (str ''address'')"
  "json_safe (str ''group'')" "json_safe (str ''created_at'')" "json_safe (str ''updated_at'')"
  by (simp_all add: json_safe_def code_points_def str_def high_surrogate_def low_surrogate_def)

lemma scan_contact_encode:
  assumes "json_safe_contact c"
  shows "scan_contact (encode_contact c @ r) = Some (c, r)"
proof -
  have d: "distinct (keys (contact_items c))"
    by (simp add: contact_items_def keys_def str_def)
  have "scan_object scan_scalar
          (encode_dict 1 (map (\<lambda>(k, v). (k, encode_value v)) (contact_items c)) @ r)
        = Some (contact_items c, r)"
  proof (rule scan_object_encode)
    show "\<And>k v r. (k, v) \<in> set (contact_items c) \<Longrightarrow>
            scan_scalar (encode_value v @ r) = Some (v, r)"
      using assms by (auto simp: contact_items_def json_safe_contact_def
                           intro!: scan_scalar_encode)
    show "\<And>v. encode_value v \<noteq> [] \<and> \<not> is_ws (hd (encode_value v))"
      by (rule encode_value_head)
    show "\<And>k v. (k, v) \<in> set (contact_items c) \<Longrightarrow> json_safe k"
      by (auto simp: contact_items_def json_safe_keys)
    show "distinct (keys (contact_items c))" by (rule d)
  qed
  moreover have "contact_of_items (contact_items c) = Some c"
    by (simp add: contact_of_items_def contact_items_def dict_get_def str_def)
  ultimately show ?thesis
    by (simp add: scan_contact_def encode_contact_def)
qed

lemma encode_contact_head: "encode_contact c \<noteq> [] \<and> \<not> is_ws (hd (encode_contact c))"
  by (simp add: encode_contact_def encode_dict_def contact_items_def str_def)

lemma json_loads_dumps:
  assumes "distinct (keys cs)" and "json_safe_contacts cs"
  shows "json_loads (json_dumps cs) = Some cs"
proof -
  have "scan_object scan_contact
          (encode_dict 0 (map (\<lambda>(k, v). (k, encode_contact v)) cs) @ [])
        = Some (cs, [])"
  proof (rule scan_object_encode)
    show "\<And>k v r. (k, v) \<in> set cs \<Longrightarrow> scan_contact (encode_contact v @ r) = Some (v, r)"
      using assms(2) by (auto simp: json_safe_contacts_def list_all_iff intro!: scan_contact_encode)
    show "\<And>v. encode_contact v \<noteq> [] \<and> \<not> is_ws (hd (encode_contact v))"
      by (rule encode_contact_head)
    show "\<And>k v. (k, v) \<in> set cs \<Longrightarrow> json_safe k"
      using assms(2) by (auto simp: json_safe_contacts_def list_all_iff)
    show "distinct (keys cs)" by (rule assms(1))
  qed
  then have "scan_object scan_contact (json_dumps cs) = Some (cs, [])"
    by (simp add: json_dumps_def)
  moreover have "skip_ws (json_dumps cs) = json_dumps cs"
    by (simp add: json_dumps_def encode_dict_def str_def)
  ultimately show ?thesis by (simp add: json_loads_def)
qed

text \<open>
  C2, as the code has it: loading right after saving gives back the collection that was
  saved, entry for entry and in the same order, when no string of it holds a high
  surrogate followed at once by a low surrogate. (The other two conditions hold of every
  collection: a dictionary has no key twice, and a string is made of code points.)
\<close>

theorem load_save_roundtrip:
  assumes "distinct (keys cs)" and "json_safe_contacts cs"
  shows "load_contacts (save_contacts cs w) = Inr (cs, save_contacts cs w)"
  using json_loads_dumps [OF assms]
  by (simp add: load_contacts_def save_contacts_def print_def)

lemma roundtrip_example:
  "distinct (keys (example_contacts @ [(0x141 # str ''ukasz'', lukasz)]))"
  "json_safe_contacts (example_contacts @ [(0x141 # str ''ukasz'', lukasz)])"
  by (simp_all add: example_contacts_def alice_def natalie_def bob_def lukasz_def keys_def
        json_safe_contacts_def json_safe_contact_def json_safe_def code_points_def str_def
        high_surrogate_def low_surrogate_def)

theorem load_save_roundtrip_witness:
  "load_contacts
     (save_contacts (example_contacts @ [(0x141 # str ''ukasz'', lukasz)]) (example_world [])) =
   Inr (example_contacts @ [(0x141 # str ''ukasz'', lukasz)],
        save_contacts (example_contacts @ [(0x141 # str ''ukasz'', lukasz)]) (example_world []))"
  using load_save_roundtrip [OF roundtrip_example, of "example_world []"] .

text \<open>
  The pair is the exception: \<open>json.dump\<close> writes the two surrogates as two escapes, and
  \<open>json.load\<close> reads two such escapes in a row as the one code point they encode. A
  name made of the surrogates \<open>0xD83D\<close> and \<open>0xDE00\<close> comes back as the name made of
  the code point \<open>0x1F600\<close>.
\<close>

theorem load_save_roundtrip_counterexample:
  "load_contacts (save_contacts [([0xD83D, 0xDE00], bob)] (example_world [])) =
     Inr ([([0x1F600], bob)], save_contacts [([0xD83D, 0xDE00], bob)] (example_world []))
   \<and> [([0x1F600], bob)] \<noteq> [([0xD83D, 0xDE00 :: nat], bob)]"
proof -
  have r: "replicate 4 x = [x, x, x, x]" "replicate 8 x = [x, x, x, x, x, x, x, x]"
    for x :: nat
    by (simp_all add: numeral_eq_Suc)
  have "json_loads (json_dumps [([0xD83D, 0xDE00], bob)]) = Some [([0x1F600], bob)]"
    by (simp add: r json_dumps_def encode_dict_def encode_contact_def contact_items_def bob_def
          encode_value_def encode_string_def escape_char_def u_escape_def hex4_def hex_digit_def
          newline_indent_def str_def json_loads_def scan_object_def object_loop.simps
          scanstring.simps read_hex4_def hex_val_def high_surrogate_def low_surrogate_def
          low_escape_def cons_result_def scan_contact_def scan_scalar_def contact_of_items_def
          dict_get_def unescape_def is_ws_def)
  then show ?thesis
    by (simp add: load_contacts_def save_contacts_def print_def)
qed

lemma load_contacts_distinct:
  assumes "load_contacts w = Inr (cs, w')"
  shows "distinct (keys cs)"
proof (cases "storage w")
  case None
  with assms show ?thesis by (simp add: load_contacts_def keys_def)
next
  case (Some content)
  with assms have "json_loads content = Some cs"
    by (simp add: load_contacts_def split: option.splits)
  then have "\<exists>ps. cs = dict_of_pairs ps []"
    by (auto simp: json_loads_def scan_object_def
             split: option.splits list.splits if_splits intro: exI [of _ "[]"])
  then obtain ps where "cs = dict_of_pairs ps []" by blast
  then show ?thesis
    using distinct_dict_of_pairs [of "[]" ps] by (simp add: keys_def)
qed

subsection \<open>Update\<close>

text \<open>
  C3: update on a name of the collection, with the four field inputs blank (empty once
  stripped), changes only the \<open>updated_at\<close> of that contact, which becomes the reading
  of the clock; every other field and every other contact is unchanged, and the new
  collection is written to the storage file.
\<close>

theorem update_contact_blank:
  assumes "distinct (keys cs)"
    and "stdin w = l0 # l1 # l2 # l3 # l4 # rest"
    and "strip L l0 \<in> set (keys cs)"
    and "strip L l1 = []" and "strip L l2 = []" and "strip L l3 = []" and "strip L l4 = []"
  shows "update_contact L cs w =
           Inr (map (\<lambda>(k, c). if k = strip L l0
                                then (k, c\<lparr>updated_at := isoformat (clock w (ticks w))\<rparr>)
                                else (k, c)) cs,
                w\<lparr>stdin := rest,
                  stdout := stdout w @ [Leave_blank, Contact_updated, Contacts_saved],
                  storage := Some (json_dumps
                     (map (\<lambda>(k, c). if k = strip L l0
                                then (k, c\<lparr>updated_at := isoformat (clock w (ticks w))\<rparr>)
                                else (k, c)) cs)),
                  ticks := Suc (ticks w)\<rparr>)"
proof -
  obtain info where g: "dict_get cs (strip L l0) = Some info"
    using assms(3) by (cases "dict_get cs (strip L l0)") (auto simp: dict_get_None)
  have m: "(strip L l0, info) \<in> set cs"
    using g by (simp add: dict_get_def map_of_SomeD)
  have same: "\<And>k c. (k, c) \<in> set cs \<Longrightarrow> k = strip L l0 \<Longrightarrow> c = info"
    using assms(1) m by (metis distinct_map inj_onD keys_def fst_conv snd_conv)
  have eq: "dict_set (strip L l0) (info\<lparr>updated_at := isoformat (clock w (ticks w))\<rparr>) cs =
        map (\<lambda>(k, c). if k = strip L l0
                                then (k, c\<lparr>updated_at := isoformat (clock w (ticks w))\<rparr>)
                                else (k, c)) cs"
    unfolding dict_set_map [OF assms(1) assms(3)]
    by (rule map_cong) (auto dest: same)
  show ?thesis
    using assms(2,4-7) g
    by (simp add: update_contact_def input_def print_def now_def save_contacts_def eq Let_def)
qed

theorem update_contact_blank_witness:
  "update_contact example_library example_contacts (example_world [(str ''Natalie''), (str ''''), (str ''  ''), (str ''''), (str '' '')]) =
     Inr ([((str ''Alice''), alice),
           ((str ''Natalie''), natalie\<lparr>updated_at := (str ''2024-01-09T01:00:00'')\<rparr>),
           ((str ''Bob''), bob)],
          (example_world [])
            \<lparr>stdout := [Leave_blank, Contact_updated, Contacts_saved],
              storage := Some (json_dumps
                 [((str ''Alice''), alice),
                  ((str ''Natalie''), natalie\<lparr>updated_at := (str ''2024-01-09T01:00:00'')\<rparr>),
                  ((str ''Bob''), bob)]),
              ticks := 1\<rparr>)"
proof -
  have s: "stdin (example_world [(str ''Natalie''), (str ''''), (str ''  ''), (str ''''), (str '' '')]) =
             (str ''Natalie'') # (str '''') # (str ''  '') # (str '''') # (str '' '') # []"
    by (simp add: example_world_def)
  have n: "strip example_library (str ''Natalie'') \<in> set (keys example_contacts)"
    by (simp add: example_contacts_def keys_def strip_def example_library_def example_space_def str_def)
  have b: "strip example_library (str '''') = []" "strip example_library (str ''  '') = []" "strip example_library (str '' '') = []"
    by (simp_all add: strip_def example_library_def example_space_def str_def)
  have iso: "isoformat example_now = (str ''2024-01-09T01:00:00'')"
    by code_simp
  have st: "strip example_library (str ''Natalie'') = (str ''Natalie'')"
    by (simp add: strip_def example_library_def example_space_def str_def)
  have ne: "str ''Alice'' \<noteq> str ''Natalie''" "str ''Bob'' \<noteq> str ''Natalie''"
    by (simp_all add: str_def)
  show ?thesis
    using update_contact_blank [OF distinct_example s n b(1) b(2) b(1) b(3)]
    by (simp add: example_world_def example_contacts_def example_clock_def iso st ne)
qed

text \<open>
  C6: update on a name that is not a key of the collection prints \<open>Contact not found!\<close>
  and does nothing else: the collection is unchanged, the clock is not read, and neither
  file is written.
\<close>

theorem update_contact_not_found:
  assumes "stdin w = line # rest" and "strip L line \<notin> set (keys cs)"
  shows "update_contact L cs w =
           Inr (cs, w\<lparr>stdin := rest, stdout := stdout w @ [Contact_not_found]\<rparr>)"
proof -
  have "dict_get cs (strip L line) = None" using assms(2) by (simp add: dict_get_None)
  then show ?thesis using assms(1) by (simp add: update_contact_def input_def print_def)
qed

theorem update_contact_not_found_witness:
  "update_contact example_library example_contacts (example_world [(str ''Carol''), (str ''5551234567'')]) =
     Inr (example_contacts,
          (example_world [(str ''5551234567'')]) \<lparr>stdout := [Contact_not_found]\<rparr>)"
proof -
  have s: "stdin (example_world [(str ''Carol''), (str ''5551234567'')]) = (str ''Carol'') # [(str ''5551234567'')]"
    by (simp add: example_world_def)
  have n: "strip example_library (str ''Carol'') \<notin> set (keys example_contacts)"
    by (simp add: example_contacts_def keys_def strip_def example_library_def example_space_def str_def)
  show ?thesis
    using update_contact_not_found [OF s n] by (simp add: example_world_def)
qed

subsection \<open>Statistics\<close>

lemma div_lt_iff_int:
  assumes "0 < (m::int)"
  shows "x div m < k \<longleftrightarrow> x < k * m"
proof
  assume "x div m < k"
  then have "x div m + 1 \<le> k" by simp
  then have "(x div m + 1) * m \<le> k * m" using assms by (simp add: mult_right_mono)
  then have "x div m * m + m \<le> k * m" by (simp add: algebra_simps)
  moreover have "x = x div m * m + x mod m" by simp
  moreover have "x mod m < m" using assms by simp
  ultimately show "x < k * m" by linarith
next
  assume a: "x < k * m"
  show "x div m < k"
  proof (rule ccontr)
    assume "\<not> x div m < k"
    then have "k \<le> x div m" by simp
    then have "k * m \<le> x div m * m" using assms by (simp add: mult_right_mono)
    moreover have "x = x div m * m + x mod m" by simp
    moreover have "0 \<le> x mod m" using assms by simp
    ultimately show False using a by linarith
  qed
qed

lemma sub_days_le_7_iff:
  "sub_days t u \<le> 7 \<longleftrightarrow> to_microseconds t - to_microseconds u < 8 * 86400 * 1000000"
proof -
  define D where "D = toordinal t - toordinal u"
  define S where "S = (second t + minute t * 60 + hour t * 3600) - (second u + minute u * 60 + hour u * 3600)"
  define U where "U = microsecond t - microsecond u"
  have a: "sub_days t u = D + (S + U div 1000000) div 86400"
    by (simp add: sub_days_def timedelta_days_def D_def S_def U_def)
  have b: "to_microseconds t - to_microseconds u = (D * 86400 + S) * 1000000 + U"
    by (simp add: to_microseconds_def D_def S_def U_def algebra_simps)
  have "D + (S + U div 1000000) div 86400 \<le> 7 \<longleftrightarrow> (S + U div 1000000) div 86400 < 8 - D"
    by arith
  also have "\<dots> \<longleftrightarrow> S + U div 1000000 < (8 - D) * 86400"
    by (rule div_lt_iff_int) simp
  also have "\<dots> \<longleftrightarrow> U div 1000000 < (8 - D) * 86400 - S"
    by arith
  also have "\<dots> \<longleftrightarrow> U < ((8 - D) * 86400 - S) * 1000000"
    by (rule div_lt_iff_int) simp
  also have "\<dots> \<longleftrightarrow> (D * 86400 + S) * 1000000 + U < 8 * 86400 * 1000000"
    by (simp add: algebra_simps)
  finally show ?thesis by (simp only: a b)
qed

lemma readings_Suc:
  "readings w (Suc n) = clock w (ticks w) # readings (w\<lparr>ticks := Suc (ticks w)\<rparr>) n"
  by (simp add: readings_def upt_conv_Cons del: upt_Suc)

lemma count_recent_spec:
  assumes "\<forall>c \<in> set infos. naive L c"
  shows "count_recent L infos n w =
           Inr (n + length (filter (\<lambda>(c, t). recently L t c)
                              (zip infos (readings w (length infos)))),
                w\<lparr>ticks := ticks w + length infos\<rparr>)"
  using assms
proof (induction infos arbitrary: n w)
  case Nil
  then show ?case by simp
next
  case (Cons c infos)
  from Cons.prems obtain u where u: "fromisoformat L (updated_at c) = Naive u"
    by (cases "fromisoformat L (updated_at c)") (auto simp: naive_def)
  have r: "recently L t c \<longleftrightarrow> sub_days t u \<le> 7" for t
    by (simp add: recently_def u sub_days_le_7_iff)
  from Cons.prems have "\<forall>c \<in> set infos. naive L c" by simp
  from Cons.IH [OF this] show ?case
    by (simp add: u now_def r readings_Suc)
qed

lemma count_recent_raises:
  assumes "\<not> (\<forall>c \<in> set infos. naive L c)"
  shows "count_recent L infos n w = Inl ValueError \<or> count_recent L infos n w = Inl TypeError"
  using assms
proof (induction infos arbitrary: n w)
  case Nil
  then show ?case by simp
next
  case (Cons c infos)
  show ?case
  proof (cases "fromisoformat L (updated_at c)")
    case Not_iso
    then show ?thesis by simp
  next
    case (Naive u)
    then have "naive L c" by (simp add: naive_def)
    with Cons.prems have "\<not> (\<forall>c \<in> set infos. naive L c)" by simp
    from Cons.IH [OF this] show ?thesis by (simp add: Naive now_def)
  next
    case Aware
    then show ?thesis by simp
  qed
qed

text \<open>
  C4, as the code has it: statistics reads the clock once for each contact, in the order
  of the collection, and reports as \<open>Recently Updated\<close> the number of contacts whose
  \<open>updated_at\<close> is later than eight times 24 hours before the reading taken for that
  contact. This is what the test \<open>(now - updated).days <= 7\<close> decides, the \<open>days\<close> of a
  \<open>timedelta\<close> being the elapsed time in whole days, rounded down. It holds when
  \<open>fromisoformat\<close> reads every \<open>updated_at\<close> as a value without time zone; otherwise
  statistics raises \<open>ValueError\<close> or \<open>TypeError\<close> and reports no count.
\<close>

theorem view_statistics_recent:
  "((\<forall>(name, c) \<in> set cs. naive L c) \<longrightarrow>
      view_statistics L cs w =
        Inr (cs, print (Recently_updated
                          (length (filter (\<lambda>((name, c), t). recently L t c)
                                     (zip cs (readings w (length cs))))))
                   ((print_groups (count_groups (dict_values cs) [])
                       (print By_group_header
                         (print (Total_contacts (length cs))
                           (print Statistics_header w))))
                    \<lparr>ticks := ticks w + length cs\<rparr>)))
   \<and> (\<not> (\<forall>(name, c) \<in> set cs. naive L c) \<longrightarrow>
        view_statistics L cs w = Inl ValueError \<or> view_statistics L cs w = Inl TypeError)"
proof (intro conjI impI)
  let ?w2 = "print_groups (count_groups (dict_values cs) [])
               (print By_group_header
                 (print (Total_contacts (length cs)) (print Statistics_header w)))"
  assume a: "\<forall>(name, c) \<in> set cs. naive L c"
  have p: "\<forall>c \<in> set (dict_values cs). naive L c"
    using a by (auto simp: dict_values_def)
  have t: "ticks ?w2 = ticks w" "clock ?w2 = clock w"
    by simp_all
  have rd: "readings ?w2 n = readings w n" for n
    by (simp add: readings_def t)
  have f: "length (filter (\<lambda>(c, t). recently L t c) (zip (map snd cs) ts)) =
           length (filter (\<lambda>((name, c), t). recently L t c) (zip cs ts))" for ts
    by (induction cs arbitrary: ts) (auto simp: zip_Cons1 split: list.splits)
  show "view_statistics L cs w =
        Inr (cs, print (Recently_updated
                          (length (filter (\<lambda>((name, c), t). recently L t c)
                                     (zip cs (readings w (length cs))))))
                   (?w2\<lparr>ticks := ticks w + length cs\<rparr>))"
    by (simp add: view_statistics_def Let_def count_recent_spec [OF p] rd t)
       (simp add: dict_values_def f)
next
  assume a: "\<not> (\<forall>(name, c) \<in> set cs. naive L c)"
  then have "\<not> (\<forall>c \<in> set (dict_values cs). naive L c)"
    by (force simp: dict_values_def)
  from count_recent_raises [OF this, of 0
      "print_groups (count_groups (dict_values cs) [])
         (print By_group_header
           (print (Total_contacts (length cs)) (print Statistics_header w)))"]
  show "view_statistics L cs w = Inl ValueError \<or> view_statistics L cs w = Inl TypeError"
    by (auto simp: view_statistics_def Let_def)
qed

lemma parse_example:
  "fromisoformat example_library (str ''2024-01-01T23:00:00'') =
     Naive \<lparr>year = 2024, month = 1, day = 1, hour = 23, minute = 0, second = 0,
            microsecond = 0\<rparr>"
  "fromisoformat example_library (str ''2024-01-08T09:15:00.250000'') =
     Naive \<lparr>year = 2024, month = 1, day = 8, hour = 9, minute = 15, second = 0,
            microsecond = 250000\<rparr>"
  "fromisoformat example_library (str ''2023-12-01T10:00:00'') =
     Naive \<lparr>year = 2023, month = 12, day = 1, hour = 10, minute = 0, second = 0,
            microsecond = 0\<rparr>"
  "fromisoformat example_library (str ''yesterday'') = Not_iso"
  by code_simp+

lemma recent_example:
  "length (filter (\<lambda>((name, c), t). recently example_library t c)
     (zip example_contacts (readings (example_world []) (length example_contacts)))) = 2"
  by code_simp

theorem view_statistics_recent_witness:
  "view_statistics example_library example_contacts (example_world []) =
     Inr (example_contacts,
          (example_world [])
            \<lparr>stdout := [Statistics_header, Total_contacts 3, By_group_header,
                         Group_count (str ''Work'') 2, Group_count (str ''Family'') 1,
                         Recently_updated 2],
              ticks := 3\<rparr>)
   \<and> view_statistics example_library [(str ''Bob'', bob\<lparr>updated_at := str ''yesterday''\<rparr>)]
        (example_world []) = Inl ValueError"
proof -
  have p: "\<forall>(name, c) \<in> set example_contacts. naive example_library c"
    by (simp add: example_contacts_def naive_def alice_def natalie_def bob_def parse_example)
  have q: "\<not> (\<forall>(name, c) \<in> set [(str ''Bob'', bob\<lparr>updated_at := str ''yesterday''\<rparr>)].
                naive example_library c)"
    by (simp add: naive_def parse_example)
  have g: "str ''Family'' \<noteq> str ''Work''" "str ''Work'' \<noteq> str ''Family''"
    by (simp_all add: str_def)
  have b: "view_statistics example_library [(str ''Bob'', bob\<lparr>updated_at := str ''yesterday''\<rparr>)]
             (example_world []) = Inl ValueError"
    by (simp add: view_statistics_def Let_def dict_values_def parse_example)
  show ?thesis
    using view_statistics_recent [of example_contacts example_library "example_world []"]
      view_statistics_recent [of "[(str ''Bob'', bob\<lparr>updated_at := str ''yesterday''\<rparr>)]"
        example_library "example_world []"] p q b
    by (simp add: recent_example)
       (simp add: example_contacts_def example_world_def dict_values_def dict_get_def print_def
          alice_def natalie_def bob_def g)
qed

text \<open>
  The count is not the number of contacts within seven calendar days: a contact updated
  on 1 January at 23:00 is counted on 9 January at 01:00, eight calendar days (and seven
  days and two hours) later.
\<close>

theorem recently_updated_counterexample:
  "view_statistics example_library [(str ''Alice'', alice)] (example_world []) =
     Inr ([(str ''Alice'', alice)],
          (example_world [])
            \<lparr>stdout := [Statistics_header, Total_contacts 1, By_group_header,
                         Group_count (str ''Work'') 1, Recently_updated 1],
              ticks := 1\<rparr>)
   \<and> updated_at alice = str ''2024-01-01T23:00:00''
   \<and> isoformat example_now = str ''2024-01-09T01:00:00''
   \<and> length (filter (within_7_calendar_days example_library example_now) [alice]) = 0"
proof -
  have d: "sub_days example_now
             \<lparr>year = 2024, month = 1, day = 1, hour = 23, minute = 0, second = 0, microsecond = 0\<rparr>
           = 7"
    by code_simp
  have v: "view_statistics example_library [(str ''Alice'', alice)] (example_world []) =
     Inr ([(str ''Alice'', alice)],
          (example_world [])
            \<lparr>stdout := [Statistics_header, Total_contacts 1, By_group_header,
                         Group_count (str ''Work'') 1, Recently_updated 1],
              ticks := 1\<rparr>)"
    by (simp add: view_statistics_def Let_def dict_values_def dict_get_def alice_def
          parse_example now_def example_world_def example_clock_def d print_def)
  have i: "isoformat example_now = str ''2024-01-09T01:00:00''"
    by code_simp
  have c: "length (filter (within_7_calendar_days example_library example_now) [alice]) = 0"
    by code_simp
  show ?thesis using v i c by (simp add: alice_def)
qed

subsection \<open>Delete\<close>

text \<open>
  C5: delete reads a name and strips it. If the name is a key of the collection, exactly
  the entry under it is removed (the others stay, in order) and the new collection is
  written to the storage file; if it is not, \<open>Contact not found!\<close> is printed, the
  collection is returned as it was and no file is touched.
\<close>

theorem delete_contact_spec:
  assumes "distinct (keys cs)" and "stdin w = line # rest"
  shows "(strip L line \<in> set (keys cs) \<longrightarrow>
            delete_contact L cs w =
              Inr (filter (\<lambda>(k, c). k \<noteq> strip L line) cs,
                   w\<lparr>stdin := rest,
                     stdout := stdout w @ [Contact_deleted, Contacts_saved],
                     storage := Some (json_dumps (filter (\<lambda>(k, c). k \<noteq> strip L line) cs))\<rparr>))
       \<and> (strip L line \<notin> set (keys cs) \<longrightarrow>
            delete_contact L cs w =
              Inr (cs, w\<lparr>stdin := rest, stdout := stdout w @ [Contact_not_found]\<rparr>))"
  using assms
  by (simp add: delete_contact_def input_def print_def save_contacts_def dict_del_filter Let_def)

theorem delete_contact_spec_witness:
  "delete_contact example_library example_contacts (example_world [(str '' Bob ''), (str ''x'')]) =
     Inr ([((str ''Alice''), alice), ((str ''Natalie''), natalie)],
          (example_world [(str ''x'')])
            \<lparr>stdout := [Contact_deleted, Contacts_saved],
              storage := Some (json_dumps [((str ''Alice''), alice), ((str ''Natalie''), natalie)])\<rparr>)
   \<and> delete_contact example_library example_contacts (example_world [(str ''Carol'')]) =
     Inr (example_contacts, (example_world []) \<lparr>stdout := [Contact_not_found]\<rparr>)"
proof -
  have s1: "stdin (example_world [(str '' Bob ''), (str ''x'')]) = (str '' Bob '') # [(str ''x'')]"
    and s2: "stdin (example_world [(str ''Carol'')]) = (str ''Carol'') # []"
    by (simp_all add: example_world_def)
  show ?thesis
    using delete_contact_spec [OF distinct_example s1] delete_contact_spec [OF distinct_example s2]
    by (simp add: example_world_def example_contacts_def keys_def strip_def example_library_def example_space_def str_def)
qed

subsection \<open>Search\<close>

lemma startswith_iff: "startswith p s \<longleftrightarrow> (\<exists>suf. s = p @ suf)"
  by (induction p s rule: startswith.induct) auto

lemma contains_iff: "contains sub s \<longleftrightarrow> (\<exists>pre suf. s = pre @ sub @ suf)"
proof (induction s)
  case Nil
  then show ?case by auto
next
  case (Cons c cs)
  show ?case
  proof
    assume "contains sub (c # cs)"
    then consider "startswith sub (c # cs)" | "contains sub cs" by auto
    then show "\<exists>pre suf. c # cs = pre @ sub @ suf"
    proof cases
      case 1
      then obtain suf where "c # cs = sub @ suf" by (auto simp: startswith_iff)
      then have "c # cs = [] @ sub @ suf" by simp
      then show ?thesis by blast
    next
      case 2
      then obtain pre suf where "cs = pre @ sub @ suf" using Cons.IH by blast
      then have "c # cs = (c # pre) @ sub @ suf" by simp
      then show ?thesis by blast
    qed
  next
    assume "\<exists>pre suf. c # cs = pre @ sub @ suf"
    then obtain pre suf where e: "c # cs = pre @ sub @ suf" by blast
    show "contains sub (c # cs)"
    proof (cases pre)
      case Nil
      with e have "startswith sub (c # cs)" by (auto simp: startswith_iff)
      then show ?thesis by simp
    next
      case (Cons a pre')
      with e have "cs = pre' @ sub @ suf" by simp
      then have "contains sub cs" using Cons.IH by blast
      then show ?thesis by simp
    qed
  qed
qed

lemma search_loop_filter:
  "distinct (keys cs) \<Longrightarrow> set (keys cs) \<inter> set (keys acc) = {} \<Longrightarrow>
   search_loop L term cs acc = acc @ filter (\<lambda>(name, info). contains term (lower L name)) cs"
proof (induction cs arbitrary: acc)
  case Nil
  then show ?case by simp
next
  case (Cons p cs)
  obtain name info where p: "p = (name, info)" by (cases p)
  from Cons.prems have d: "distinct (keys cs)" and fresh: "name \<notin> set (keys acc)"
    and nk: "name \<notin> set (keys cs)" and disj: "set (keys cs) \<inter> set (keys acc) = {}"
    by (auto simp: p keys_def)
  show ?case
  proof (cases "contains term (lower L name)")
    case True
    have "set (keys cs) \<inter> set (keys (acc @ [(name, info)])) = {}"
      using disj nk by (auto simp: keys_def)
    from Cons.IH [OF d this] show ?thesis
      using True by (simp add: p dict_set_fresh [OF fresh])
  next
    case False
    from Cons.IH [OF d disj] show ?thesis using False by (simp add: p)
  qed
qed

text \<open>
  C7: search reads a query and finds exactly the contacts whose name, in lower case, has
  the query, in lower case, as a substring; it lists them in the order of the collection,
  numbered from 1, or prints \<open>No contacts found.\<close> when there is none. The collection
  is returned as it was and neither file is written.
\<close>

theorem search_contact_spec:
  assumes "distinct (keys cs)" and "stdin w = q # rest"
  shows "\<exists>w'. search_contact L cs w = Inr (cs, w')
      \<and> w' = (if matching L q cs = [] then print No_contacts_found (w\<lparr>stdin := rest\<rparr>)
              else print_results 1 (matching L q cs)
                     (print (Rule 50) (print (Found_count (length (matching L q cs)))
                        (w\<lparr>stdin := rest\<rparr>))))
      \<and> storage w' = storage w \<and> csv_file w' = csv_file w"
proof -
  have "search_loop L (lower L q) cs [] = matching L q cs"
    using search_loop_filter [OF assms(1), of "[]" L "lower L q"]
    by (simp add: keys_def matching_def contains_iff)
  then show ?thesis
    using assms(2) by (simp add: search_contact_def input_def Let_def)
qed

lemma matching_example:
  "matching example_library (str ''ali'') example_contacts = [((str ''Alice''), alice), ((str ''Natalie''), natalie)]"
  unfolding matching_def contains_iff [symmetric]
  by code_simp

theorem search_contact_spec_witness:
  "search_contact example_library example_contacts (example_world [(str ''ali'')]) =
     Inr (example_contacts,
          (example_world [])
            \<lparr>stdout := [Found_count 2, Rule 50,
                 Result_name 1 (str ''Alice''), Result_phone (Some (str ''5551234567'')),
                 Result_email (str ''alice@example.com''), Result_group (str ''Work''), Blank,
                 Result_name 2 (str ''Natalie''), Result_phone (Some (str ''15550001111'')),
                 Result_address (str ''12 Elm Street''), Result_group (str ''Family''), Blank]\<rparr>)"
proof -
  have s: "stdin (example_world [(str ''ali'')]) = (str ''ali'') # []"
    by (simp add: example_world_def)
  show ?thesis
    using search_contact_spec [OF distinct_example s, of example_library]
    by (simp add: matching_example)
       (simp add: example_world_def print_def print_if_def alice_def natalie_def str_def)
qed

text \<open>
  C10: with the empty string as the query every contact matches: search lists the whole
  collection, in order.
\<close>

theorem search_contact_empty_query:
  assumes "distinct (keys cs)" and "stdin w = [] # rest"
  shows "search_contact L cs w =
           Inr (cs, if cs = [] then print No_contacts_found (w\<lparr>stdin := rest\<rparr>)
                    else print_results 1 cs
                           (print (Rule 50) (print (Found_count (length cs))
                              (w\<lparr>stdin := rest\<rparr>))))"
proof -
  have "filter (\<lambda>(name, info). contains [] (lower L name)) cs = cs"
    by (induction cs) (auto simp: contains_iff)
  then have "search_loop L (lower L []) cs [] = cs"
    using search_loop_filter [OF assms(1), of "[]" L "lower L []"]
    by (simp add: keys_def lower_def)
  then show ?thesis
    using assms(2) by (simp add: search_contact_def input_def Let_def)
qed

theorem search_contact_empty_query_witness:
  "search_contact example_library example_contacts (example_world [[]]) =
     Inr (example_contacts,
          (example_world [])
            \<lparr>stdout := [Found_count 3, Rule 50,
                 Result_name 1 (str ''Alice''), Result_phone (Some (str ''5551234567'')),
                 Result_email (str ''alice@example.com''), Result_group (str ''Work''), Blank,
                 Result_name 2 (str ''Natalie''), Result_phone (Some (str ''15550001111'')),
                 Result_address (str ''12 Elm Street''), Result_group (str ''Family''), Blank,
                 Result_name 3 (str ''Bob''), Result_phone (Some (str ''4155550199'')),
                 Result_group (str ''Work''), Blank]\<rparr>)"
proof -
  have s: "stdin (example_world [[]]) = [] # []"
    by (simp add: example_world_def)
  show ?thesis
    using search_contact_empty_query [OF distinct_example s, of example_library]
    by (simp add: example_contacts_def)
       (simp add: example_world_def print_def print_if_def alice_def natalie_def bob_def str_def)
qed

subsection \<open>Export\<close>





subsection \<open>The phone invariant\<close>

lemma validated_ok:
  "validated L p \<Longrightarrow> \<exists>d. p = Some d \<and> list_all (is_decimal L) d \<and> 10 \<le> length d \<and> length d \<le> 15"
  by (auto simp: validated_def dest: validate_phone_ok)

lemma prompt_phone_validated: "prompt_phone L w = Inr (cleaned, w') \<Longrightarrow> validated L cleaned"
proof (induction L w rule: prompt_phone.induct)
  case (1 L w)
  from "1.prems" obtain line w1 where i: "input w = Inr (line, w1)"
    by (subst (asm) prompt_phone.simps) (auto split: sum.splits)
  obtain valid c where v: "validate_phone L (strip L line) = (valid, c)"
    by (cases "validate_phone L (strip L line)")
  show ?case
  proof (cases valid)
    case True
    with "1.prems" i v have "c = cleaned"
      by (subst (asm) prompt_phone.simps) simp
    with v True show ?thesis by (auto simp: validated_def)
  next
    case False
    with "1.prems" i v have "prompt_phone L (print Invalid_phone w1) = Inr (cleaned, w')"
      by (subst (asm) prompt_phone.simps) simp
    from "1.IH" [OF i refl v [symmetric] False this] show ?thesis .
  qed
qed

lemma phones_ok_dict_set: "phones_ok L cs \<Longrightarrow> phone_ok L c \<Longrightarrow> phones_ok L (dict_set k c cs)"
  by (induction cs) (auto simp: phones_ok_def)

lemma phones_ok_dict_del: "phones_ok L cs \<Longrightarrow> phones_ok L (dict_del k cs)"
  by (induction cs) (auto simp: phones_ok_def)

lemma phones_ok_dict_get: "phones_ok L cs \<Longrightarrow> dict_get cs k = Some c \<Longrightarrow> phone_ok L c"
  by (auto simp: phones_ok_def dict_get_def list_all_iff dest!: map_of_SomeD)

lemma add_contact_stores:
  assumes "add_contact L cs w = Inr (cs', w')"
  shows "\<exists>name c. cs' = dict_set name c cs \<and> validated L (phone c)"
proof -
  from assms obtain name w1 cleaned w2 c where
    p: "prompt_phone L w1 = Inr (cleaned, w2)" and c: "cs' = dict_set name c cs"
    and ph: "phone c = cleaned"
    by (auto simp: add_contact_def now_def Let_def split: sum.splits prod.splits)
  from prompt_phone_validated [OF p] ph c show ?thesis by auto
qed

lemma update_contact_stores:
  assumes "update_contact L cs w = Inr (cs', w')"
  shows "cs' = cs \<or>
         (\<exists>name old new. dict_get cs name = Some old \<and> cs' = dict_set name new cs \<and>
            (phone new = phone old \<or> validated L (phone new)))"
proof -
  obtain l0 w0 where i0: "input w = Inr (l0, w0)"
    using assms by (auto simp: update_contact_def split: sum.splits)
  show ?thesis
  proof (cases "dict_get cs (strip L l0)")
    case None
    with assms i0 show ?thesis by (simp add: update_contact_def)
  next
    case (Some info)
    obtain l1 w1 where i1: "input (print Leave_blank w0) = Inr (l1, w1)"
      using assms i0 Some by (cases "input (print Leave_blank w0)") (auto simp: update_contact_def)
    obtain l2 w2 where i2: "input w1 = Inr (l2, w2)"
      using assms i0 Some i1 by (cases "input w1") (auto simp: update_contact_def Let_def)
    obtain l3 w3 where i3: "input w2 = Inr (l3, w3)"
      using assms i0 Some i1 i2 by (cases "input w2") (auto simp: update_contact_def Let_def)
    obtain l4 w4 where i4: "input w3 = Inr (l4, w4)"
      using assms i0 Some i1 i2 i3 by (cases "input w3") (auto simp: update_contact_def Let_def)
    define info1 where "info1 =
      (if strip L l1 \<noteq> []
       then (case validate_phone L (strip L l1) of
               (valid, cleaned) \<Rightarrow> if valid then info\<lparr>phone := cleaned\<rparr> else info)
       else info)"
    define info4 where "info4 =
      (let info2 = (if strip L l2 \<noteq> [] \<and> validate_email (strip L l2)
                    then info1\<lparr>email := Some (strip L l2)\<rparr> else info1);
           info3 = (if strip L l3 \<noteq> [] then info2\<lparr>address := Some (strip L l3)\<rparr> else info2)
       in if strip L l4 \<noteq> [] then info3\<lparr>group := strip L l4\<rparr> else info3)"
    have "update_contact L cs w =
            Inr (dict_set (strip L l0) (info4\<lparr>updated_at := isoformat (clock w4 (ticks w4))\<rparr>) cs,
                 save_contacts
                   (dict_set (strip L l0)
                      (info4\<lparr>updated_at := isoformat (clock w4 (ticks w4))\<rparr>) cs)
                   (print Contact_updated (w4\<lparr>ticks := Suc (ticks w4)\<rparr>)))"
      unfolding update_contact_def info4_def info1_def
      by (simp only: i0 i1 i2 i3 i4 Some sum.case prod.case option.case Let_def now_def)
    with assms have c: "cs' = dict_set (strip L l0)
                           (info4\<lparr>updated_at := isoformat (clock w4 (ticks w4))\<rparr>) cs"
      by simp
    have "phone (info4\<lparr>updated_at := isoformat (clock w4 (ticks w4))\<rparr>) = phone info1"
      by (simp add: info4_def Let_def)
    moreover have "phone info1 = phone info \<or> validated L (phone info1)"
      by (cases "validate_phone L (strip L l1)") (auto simp: info1_def validated_def)
    ultimately show ?thesis using Some c by metis
  qed
qed

lemma validated_phone_ok: "validated L (phone c) \<Longrightarrow> phone_ok L c"
  by (auto simp: phone_ok_def dest: validated_ok)

lemma add_contact_phone:
  assumes "phones_ok L cs" and "add_contact L cs w = Inr (cs', w')"
  shows "phones_ok L cs'"
  using add_contact_stores [OF assms(2)] assms(1)
  by (auto simp: phones_ok_dict_set validated_phone_ok)

lemma update_contact_phone:
  assumes "phones_ok L cs" and "update_contact L cs w = Inr (cs', w')"
  shows "phones_ok L cs'"
proof -
  from update_contact_stores [OF assms(2)] consider "cs' = cs"
    | name old new where "dict_get cs name = Some old" "cs' = dict_set name new cs"
        "phone new = phone old \<or> validated L (phone new)"
    by blast
  then show ?thesis
  proof cases
    case 1
    with assms(1) show ?thesis by simp
  next
    case 2
    from phones_ok_dict_get [OF assms(1) 2(1)] 2(3) have "phone_ok L new"
      by (auto simp: phone_ok_def dest: validated_ok)
    with assms(1) 2(2) show ?thesis by (simp add: phones_ok_dict_set)
  qed
qed

lemma delete_contact_phone:
  assumes "phones_ok L cs" and "delete_contact L cs w = Inr (cs', w')"
  shows "phones_ok L cs'"
  using assms
  by (auto simp: delete_contact_def Let_def phones_ok_dict_del split: sum.splits if_splits)

text \<open>
  C9: add, update and delete keep the invariant that the phone of every stored contact
  is a string of 10 to 15 digits, a digit being what the class \<open>\d\<close> of \<open>re\<close> matches,
  any decimal digit of Unicode. Add assigns one contact, whose phone is the
  second component of a \<open>validate_phone\<close> that succeeded; update either leaves the
  collection alone or assigns one contact of the collection, with the phone it had or
  with the second component of a \<open>validate_phone\<close> that succeeded.
\<close>

theorem phone_invariant:
  assumes "phones_ok L cs"
  shows "(add_contact L cs w = Inr (cs', w') \<longrightarrow>
            phones_ok L cs' \<and> (\<exists>name c. cs' = dict_set name c cs \<and> validated L (phone c)))
       \<and> (update_contact L cs w = Inr (cs', w') \<longrightarrow>
            phones_ok L cs' \<and>
            (cs' = cs \<or>
             (\<exists>name old new. dict_get cs name = Some old \<and> cs' = dict_set name new cs \<and>
                (phone new = phone old \<or> validated L (phone new)))))
       \<and> (delete_contact L cs w = Inr (cs', w') \<longrightarrow> phones_ok L cs')"
proof (intro conjI impI)
  assume a: "add_contact L cs w = Inr (cs', w')"
  from add_contact_phone [OF assms a] show "phones_ok L cs'" .
  from add_contact_stores [OF a]
  show "\<exists>name c. cs' = dict_set name c cs \<and> validated L (phone c)" .
next
  assume u: "update_contact L cs w = Inr (cs', w')"
  from update_contact_phone [OF assms u] show "phones_ok L cs'" .
  from update_contact_stores [OF u]
  show "cs' = cs \<or>
     (\<exists>name old new. dict_get cs name = Some old \<and> cs' = dict_set name new cs \<and>
        (phone new = phone old \<or> validated L (phone new)))" .
next
  assume d: "delete_contact L cs w = Inr (cs', w')"
  from delete_contact_phone [OF assms d] show "phones_ok L cs'" .
qed

lemma phones_ok_example: "phones_ok example_library example_contacts"
  by (simp add: phones_ok_def phone_ok_def example_contacts_def alice_def natalie_def bob_def
        example_library_def example_decimal_def str_def)

theorem phone_invariant_witness:
  "phones_ok example_library example_contacts
   \<and> add_contact example_library example_contacts
        (example_world [str ''  '', str ''Dan'', str ''12345'',
                        str ''(555) '' @ [0x661, 0x662, 0x663] @ str ''-4567'',
                        str ''dan at home'', [], str ''1 Main St'', []]) =
       Inr (example_contacts @
              [(str ''Dan'', \<lparr>phone = Some (str ''555'' @ [0x661, 0x662, 0x663] @ str ''4567''),
                           email = None,
                           address = Some (str ''1 Main St''), group = str ''Other'',
                           created_at = str ''2024-01-09T01:00:00'',
                           updated_at = str ''2024-01-09T01:00:00''\<rparr>)],
            (example_world [])
              \<lparr>stdout := [Add_header, Name_empty, Invalid_phone, Invalid_email,
                           Contact_added (str ''Dan''), Contacts_saved],
                storage := Some (json_dumps (example_contacts @
              [(str ''Dan'', \<lparr>phone = Some (str ''555'' @ [0x661, 0x662, 0x663] @ str ''4567''),
                           email = None,
                           address = Some (str ''1 Main St''), group = str ''Other'',
                           created_at = str ''2024-01-09T01:00:00'',
                           updated_at = str ''2024-01-09T01:00:00''\<rparr>)])),
                ticks := 2\<rparr>)
   \<and> phones_ok example_library (example_contacts @
              [(str ''Dan'', \<lparr>phone = Some (str ''555'' @ [0x661, 0x662, 0x663] @ str ''4567''),
                           email = None,
                           address = Some (str ''1 Main St''), group = str ''Other'',
                           created_at = str ''2024-01-09T01:00:00'',
                           updated_at = str ''2024-01-09T01:00:00''\<rparr>)])"
proof -
  define typed where "typed = str ''(555) '' @ [0x661, 0x662, 0x663] @ str ''-4567''"
  define kept where "kept = str ''555'' @ [0x661, 0x662, 0x663] @ str ''4567''"
  define dan where "dan = \<lparr>phone = Some kept, email = None,
                           address = Some (str ''1 Main St''), group = str ''Other'',
                           created_at = str ''2024-01-09T01:00:00'',
                           updated_at = str ''2024-01-09T01:00:00''\<rparr>"
  have s: "strip example_library (str ''  '') = []"
    "strip example_library (str ''Dan'') = str ''Dan''"
    "strip example_library (str ''12345'') = str ''12345''"
    "strip example_library typed = typed"
    "strip example_library (str ''dan at home'') = str ''dan at home''"
    "strip example_library [] = []"
    "strip example_library (str ''1 Main St'') = str ''1 Main St''"
    by (simp_all add: typed_def strip_def example_library_def example_space_def str_def)
  have ne: "str ''Dan'' \<noteq> []" "str ''dan at home'' \<noteq> []" "str ''1 Main St'' \<noteq> []"
    by (simp_all add: str_def)
  have v: "validate_phone example_library (str ''12345'') = (False, None)"
    "validate_phone example_library typed = (True, Some kept)"
    by (simp_all add: typed_def kept_def validate_phone_def example_library_def
          example_decimal_def str_def)
  have e: "validate_email (str ''dan at home'') = False"
    by code_simp
  have i: "isoformat example_now = str ''2024-01-09T01:00:00''"
    by code_simp
  have fresh: "str ''Dan'' \<notin> set (keys example_contacts)"
    by (simp add: example_contacts_def keys_def str_def)
  have r: "add_contact example_library example_contacts
        (example_world [str ''  '', str ''Dan'', str ''12345'', typed,
                        str ''dan at home'', [], str ''1 Main St'', []]) =
       Inr (example_contacts @ [(str ''Dan'', dan)],
            (example_world [])
              \<lparr>stdout := [Add_header, Name_empty, Invalid_phone, Invalid_email,
                           Contact_added (str ''Dan''), Contacts_saved],
                storage := Some (json_dumps (example_contacts @ [(str ''Dan'', dan)])),
                ticks := 2\<rparr>)"
    by (simp add: add_contact_def prompt_name.simps prompt_phone.simps prompt_email.simps
          input_def print_def now_def save_contacts_def example_world_def example_clock_def
          s ne v e i Let_def dict_set_fresh [OF fresh] dan_def)
  from phone_invariant [OF phones_ok_example,
      of "example_world [str ''  '', str ''Dan'', str ''12345'', typed,
                         str ''dan at home'', [], str ''1 Main St'', []]"
         "example_contacts @ [(str ''Dan'', dan)]"
         "(example_world [])
              \<lparr>stdout := [Add_header, Name_empty, Invalid_phone, Invalid_email,
                           Contact_added (str ''Dan''), Contacts_saved],
                storage := Some (json_dumps (example_contacts @ [(str ''Dan'', dan)])),
                ticks := 2\<rparr>"] r
  show ?thesis
    by (simp add: phones_ok_example typed_def kept_def dan_def)
qed

subsection \<open>The keys stay distinct\<close>

text \<open>
  The statements above take a collection without a repeated key, as every \<open>dict\<close> is.
  The operations that change the collection keep it so.
\<close>

lemma add_contact_distinct:
  assumes "distinct (keys cs)" and "add_contact L cs w = Inr (cs', w')"
  shows "distinct (keys cs')"
proof -
  from assms(2) obtain name c where "cs' = dict_set name c cs"
    by (auto simp: add_contact_def now_def Let_def split: sum.splits prod.splits)
  with assms(1) show ?thesis by (simp add: distinct_dict_set)
qed

lemma update_contact_distinct:
  assumes "distinct (keys cs)" and "update_contact L cs w = Inr (cs', w')"
  shows "distinct (keys cs')"
proof -
  from assms(2) have "cs' = cs \<or> (\<exists>name c. cs' = dict_set name c cs)"
    by (auto simp: update_contact_def now_def Let_def
             split: sum.splits prod.splits option.splits)
  with assms(1) show ?thesis by (auto simp: distinct_dict_set)
qed

lemma delete_contact_distinct:
  assumes "distinct (keys cs)" and "delete_contact L cs w = Inr (cs', w')"
  shows "distinct (keys cs')"
  using assms
  by (auto simp: delete_contact_def Let_def distinct_dict_del split: sum.splits if_splits)

end
